theory Spec2Isabelle
  imports Complex_Main
begin

section \<open>The array layer\<close>

text \<open>
  \<^verbatim>\<open>tensortools.py\<close> stores every value in a numpy array of dtype float and leaves all
  arithmetic, broadcasting and shape checking to numpy. An array is modelled by its shape
  and its elements in row-major order. Elements are real numbers: rounding, signed zeros,
  infinities and NaN of IEEE doubles are outside the model (so \<open>x ** -1\<close> at \<open>x = 0\<close>
  is \<open>power_int 0 (-1) = 0\<close> here where numpy yields \<open>inf\<close> with a warning).
  An operation that numpy rejects returns the error as a value.
\<close>

datatype error = ValueError | TypeError | AttributeError | RecursionError

datatype ndarray = NDArray (shape_of: "nat list") (elems: "real list")

text \<open>All index tuples of a shape, in row-major order, and the flat position of one.\<close>

fun indices :: "nat list \<Rightarrow> nat list list" where
  "indices [] = [[]]"
| "indices (d # ds) = concat (map (\<lambda>i. map ((#) i) (indices ds)) [0..<d])"

fun flat_index :: "nat list \<Rightarrow> nat list \<Rightarrow> nat" where
  "flat_index (d # ds) (i # idx) = i * prod_list ds + flat_index ds idx"
| "flat_index _ _ = 0"

definition item :: "ndarray \<Rightarrow> nat list \<Rightarrow> real" where
  "item a idx = elems a ! flat_index (shape_of a) idx"

text \<open>
  numpy's broadcasting: shapes are aligned at their last dimension; two dimensions are
  compatible when they are equal or one of them is 1. \<open>broadcast_rev\<close> works on the
  reversed shapes.
\<close>

fun broadcast_rev :: "nat list \<Rightarrow> nat list \<Rightarrow> nat list option" where
  "broadcast_rev [] ys = Some ys"
| "broadcast_rev (x # xs) [] = Some (x # xs)"
| "broadcast_rev (x # xs) (y # ys) =
     (if x = y \<or> y = 1 then map_option ((#) x) (broadcast_rev xs ys)
      else if x = 1 then map_option ((#) y) (broadcast_rev xs ys)
      else None)"

definition broadcast_shapes :: "nat list \<Rightarrow> nat list \<Rightarrow> nat list option" where
  "broadcast_shapes s t = map_option rev (broadcast_rev (rev s) (rev t))"

text \<open>The index read in an array of shape \<open>s\<close> for position \<open>idx\<close> of the broadcast result.\<close>

definition bidx :: "nat list \<Rightarrow> nat list \<Rightarrow> nat list" where
  "bidx s idx = map2 (\<lambda>d i. if d = 1 then 0 else i) s (drop (length idx - length s) idx)"

definition broadcast_to :: "nat list \<Rightarrow> ndarray \<Rightarrow> real list" where
  "broadcast_to t a = map (\<lambda>idx. item a (bidx (shape_of a) idx)) (indices t)"

definition elementwise :: "(real \<Rightarrow> real \<Rightarrow> real) \<Rightarrow> ndarray \<Rightarrow> ndarray \<Rightarrow> error + ndarray" where
  "elementwise f a b =
     (case broadcast_shapes (shape_of a) (shape_of b) of
        None \<Rightarrow> Inl ValueError
      | Some s \<Rightarrow> Inr (NDArray s (map2 f (broadcast_to s a) (broadcast_to s b))))"

definition np_add :: "ndarray \<Rightarrow> ndarray \<Rightarrow> error + ndarray" where
  "np_add = elementwise (+)"

definition np_sub :: "ndarray \<Rightarrow> ndarray \<Rightarrow> error + ndarray" where
  "np_sub = elementwise (-)"

definition np_mul :: "ndarray \<Rightarrow> ndarray \<Rightarrow> error + ndarray" where
  "np_mul = elementwise (*)"

definition np_neg :: "ndarray \<Rightarrow> ndarray" where
  "np_neg a = NDArray (shape_of a) (map uminus (elems a))"

definition np_exp :: "ndarray \<Rightarrow> ndarray" where
  "np_exp a = NDArray (shape_of a) (map exp (elems a))"

text \<open>\<open>a ** n\<close> for a Python integer \<open>n\<close>.\<close>

definition np_pow :: "ndarray \<Rightarrow> int \<Rightarrow> ndarray" where
  "np_pow a n = NDArray (shape_of a) (map (\<lambda>x. power_int x n) (elems a))"

text \<open>\<open>a.T\<close> reverses the order of the axes.\<close>

definition np_T :: "ndarray \<Rightarrow> ndarray" where
  "np_T a = NDArray (rev (shape_of a))
              (map (\<lambda>idx. item a (rev idx)) (indices (rev (shape_of a))))"

text \<open>
  \<open>a @ b\<close>: a 0-d operand is rejected; a 1-d left operand is used as a row and a 1-d right
  operand as a column, and that dimension is dropped from the result; the last two
  dimensions are multiplied as matrices and the leading ones are broadcast.
\<close>

definition np_matmul :: "ndarray \<Rightarrow> ndarray \<Rightarrow> error + ndarray" where
  "np_matmul a b =
     (let sa = shape_of a; sb = shape_of b in
      if sa = [] \<or> sb = [] then Inl ValueError
      else
        let sa' = (if length sa = 1 then 1 # sa else sa);
            sb' = (if length sb = 1 then sb @ [1] else sb);
            ba = butlast (butlast sa'); n = last (butlast sa'); m = last sa';
            bb = butlast (butlast sb'); m' = last (butlast sb'); k = last sb'
        in if m \<noteq> m' then Inl ValueError
           else
             (case broadcast_shapes ba bb of
                None \<Rightarrow> Inl ValueError
              | Some bs \<Rightarrow>
                  Inr (NDArray
                    (bs @ (if length sa = 1 then [] else [n]) @ (if length sb = 1 then [] else [k]))
                    (concat (map (\<lambda>bi. concat (map (\<lambda>i. map (\<lambda>l.
                        (\<Sum>j\<leftarrow>[0..<m]. item (NDArray sa' (elems a)) (bidx ba bi @ [i, j])
                                      * item (NDArray sb' (elems b)) (bidx bb bi @ [j, l])))
                      [0..<k]) [0..<n])) (indices bs))))))"

definition np_zeros :: "nat list \<Rightarrow> ndarray" where
  "np_zeros s = NDArray s (replicate (prod_list s) 0)"

text \<open>
  \<open>np.random.randn(*shape)\<close> fills an array of the given shape with samples of the global
  generator; \<open>draws i\<close> is the \<open>i\<close>-th sample it yields.
\<close>

definition np_random_randn :: "(nat \<Rightarrow> real) \<Rightarrow> nat list \<Rightarrow> ndarray" where
  "np_random_randn draws s = NDArray s (map draws [0..<prod_list s])"

text \<open>
  What the constructor may be given as \<open>data\<close>: a Python number, a (nested) sequence, or an
  array. \<open>np.array(data, dtype=float)\<close> stacks the converted items of a sequence, which must
  all have one shape.
\<close>

datatype pydata = PyInt int | PyFloat real | PySeq "pydata list" | PyArr ndarray

fun stack :: "(error + ndarray) list \<Rightarrow> error + (nat list option \<times> real list)" where
  "stack [] = Inr (None, [])"
| "stack (Inl e # rs) = Inl e"
| "stack (Inr a # rs) =
     (case stack rs of
        Inl e \<Rightarrow> Inl e
      | Inr (None, _) \<Rightarrow> Inr (Some (shape_of a), elems a)
      | Inr (Some s, xs) \<Rightarrow>
          if s = shape_of a then Inr (Some s, elems a @ xs) else Inl ValueError)"

fun np_array :: "pydata \<Rightarrow> error + ndarray" where
  "np_array (PyInt n) = Inr (NDArray [] [of_int n])"
| "np_array (PyFloat x) = Inr (NDArray [] [x])"
| "np_array (PyArr a) = Inr a"
| "np_array (PySeq ds) =
     (case stack (map np_array ds) of
        Inl e \<Rightarrow> Inl e
      | Inr (None, _) \<Rightarrow> Inr (NDArray [0] [])
      | Inr (Some s, xs) \<Rightarrow> Inr (NDArray (length ds # s) xs))"

section \<open>Tensors\<close>

text \<open>
  Tensors are objects with identity: two operands may be the same object, and a backward
  rule writes into the objects it captured. The heap is the list of all tensors created
  so far, and a reference is a position in it. A backward rule is a closure over
  \<open>self\<close>, \<open>other\<close> and \<open>out\<close>; it is represented by the operation that created it and
  the references it captured, \<open>NoOp\<close> being the constructor's \<open>lambda: None\<close>.
\<close>

type_synonym ref = nat

datatype closure =
    NoOp
  | AddBackward ref ref ref
  | SubBackward ref ref ref
  | MulBackward ref ref ref
  | DivBackward ref ref ref
  | MatmulBackward ref ref ref
  | ExpBackward ref ref
  | NegBackward ref ref
  | TBackward ref ref

record tensor =
  data :: ndarray
  label :: string
  requires_grad :: bool
  grad :: "ndarray option"
  backward :: closure
  shape :: "nat list"
  components :: "ref set"
  operator :: string

type_synonym heap = "tensor list"

text \<open>An omitted keyword argument is \<open>None\<close> and takes the default of the signature.\<close>

definition dflt :: "'a \<Rightarrow> 'a option \<Rightarrow> 'a" where
  "dflt d x = (case x of None \<Rightarrow> d | Some v \<Rightarrow> v)"

definition Tensor ::
  "heap \<Rightarrow> pydata \<Rightarrow> string option \<Rightarrow> bool option \<Rightarrow> ref list option \<Rightarrow> string option
     \<Rightarrow> error + (ref \<times> heap)" where
  "Tensor h d lbl rg comps opr =
     (case np_array d of
        Inl e \<Rightarrow> Inl e
      | Inr arr \<Rightarrow>
          Inr (length h,
               h @ [\<lparr> data = arr, label = dflt [] lbl, requires_grad = dflt False rg,
                      grad = None, backward = NoOp, shape = shape_of arr,
                      components = set (dflt [] comps), operator = dflt [] opr \<rparr>]))"

definition set_grad :: "ref \<Rightarrow> ndarray option \<Rightarrow> heap \<Rightarrow> heap" where
  "set_grad r g h = h[r := (h ! r)\<lparr>grad := g\<rparr>]"

definition set_backward :: "ref \<Rightarrow> closure \<Rightarrow> heap \<Rightarrow> heap" where
  "set_backward r c h = h[r := (h ! r)\<lparr>backward := c\<rparr>]"

section \<open>Operations\<close>

text \<open>
  The right operand of a binary operator is a tensor or any other Python value; the
  latter is wrapped in a fresh leaf labelled with its \<open>str\<close>. Python's \<open>str\<close> is a
  parameter of the model.
\<close>

datatype operand = IsTensor ref | NotTensor pydata

definition coerce :: "(pydata \<Rightarrow> string) \<Rightarrow> heap \<Rightarrow> operand \<Rightarrow> error + (ref \<times> heap)" where
  "coerce str h other =
     (case other of
        IsTensor r \<Rightarrow> Inr (r, h)
      | NotTensor d \<Rightarrow> Tensor h d (Some (str d)) None None None)"

definition Tensor_add :: "(pydata \<Rightarrow> string) \<Rightarrow> heap \<Rightarrow> ref \<Rightarrow> operand \<Rightarrow> error + (ref \<times> heap)" where
  "Tensor_add str h self other =
     (case coerce str h other of
        Inl e \<Rightarrow> Inl e
      | Inr (other, h1) \<Rightarrow>
          (case np_add (data (h1 ! self)) (data (h1 ! other)) of
             Inl e \<Rightarrow> Inl e
           | Inr d \<Rightarrow>
               (case Tensor h1 (PyArr d) None (Some True) (Some [self, other]) (Some ''+'') of
                  Inl e \<Rightarrow> Inl e
                | Inr (out, h2) \<Rightarrow> Inr (out, set_backward out (AddBackward self other out) h2))))"

definition Tensor_sub :: "(pydata \<Rightarrow> string) \<Rightarrow> heap \<Rightarrow> ref \<Rightarrow> operand \<Rightarrow> error + (ref \<times> heap)" where
  "Tensor_sub str h self other =
     (case coerce str h other of
        Inl e \<Rightarrow> Inl e
      | Inr (other, h1) \<Rightarrow>
          (case np_sub (data (h1 ! self)) (data (h1 ! other)) of
             Inl e \<Rightarrow> Inl e
           | Inr d \<Rightarrow>
               (case Tensor h1 (PyArr d) None (Some True) (Some [self, other]) (Some ''-'') of
                  Inl e \<Rightarrow> Inl e
                | Inr (out, h2) \<Rightarrow>
                    Inr (out, if requires_grad (h2 ! self)
                              then set_backward out (SubBackward self other out) h2 else h2))))"

definition Tensor_mul :: "(pydata \<Rightarrow> string) \<Rightarrow> heap \<Rightarrow> ref \<Rightarrow> operand \<Rightarrow> error + (ref \<times> heap)" where
  "Tensor_mul str h self other =
     (case coerce str h other of
        Inl e \<Rightarrow> Inl e
      | Inr (other, h1) \<Rightarrow>
          (case np_mul (data (h1 ! self)) (data (h1 ! other)) of
             Inl e \<Rightarrow> Inl e
           | Inr d \<Rightarrow>
               (case Tensor h1 (PyArr d) None (Some True) (Some [self, other]) (Some ''*'') of
                  Inl e \<Rightarrow> Inl e
                | Inr (out, h2) \<Rightarrow>
                    Inr (out, if requires_grad (h2 ! self)
                              then set_backward out (MulBackward self other out) h2 else h2))))"

text \<open>
  \<open>__pow__\<close> takes the exponent as a Python integer; the leaf wrapping it is created
  after the power has been computed and before \<open>out\<close>.
\<close>

definition Tensor_pow :: "(pydata \<Rightarrow> string) \<Rightarrow> heap \<Rightarrow> ref \<Rightarrow> int \<Rightarrow> error + (ref \<times> heap)" where
  "Tensor_pow str h self other =
     (let d = np_pow (data (h ! self)) other in
      case Tensor h (PyInt other) (Some (str (PyInt other))) None None None of
        Inl e \<Rightarrow> Inl e
      | Inr (exponent, h1) \<Rightarrow>
          Tensor h1 (PyArr d) None (Some True) (Some [self, exponent]) (Some ''**''))"

definition Tensor_truediv :: "(pydata \<Rightarrow> string) \<Rightarrow> heap \<Rightarrow> ref \<Rightarrow> operand \<Rightarrow> error + (ref \<times> heap)" where
  "Tensor_truediv str h self other =
     (case coerce str h other of
        Inl e \<Rightarrow> Inl e
      | Inr (other, h1) \<Rightarrow>
          (case np_mul (data (h1 ! self)) (np_pow (data (h1 ! other)) (- 1)) of
             Inl e \<Rightarrow> Inl e
           | Inr d \<Rightarrow>
               (case Tensor h1 (PyArr d) None (Some True) (Some [self, other]) (Some ''/'') of
                  Inl e \<Rightarrow> Inl e
                | Inr (out, h2) \<Rightarrow>
                    Inr (out, if requires_grad (h2 ! self)
                              then set_backward out (DivBackward self other out) h2 else h2))))"

definition Tensor_matmul :: "(pydata \<Rightarrow> string) \<Rightarrow> heap \<Rightarrow> ref \<Rightarrow> operand \<Rightarrow> error + (ref \<times> heap)" where
  "Tensor_matmul str h self other =
     (case coerce str h other of
        Inl e \<Rightarrow> Inl e
      | Inr (other, h1) \<Rightarrow>
          (case np_matmul (data (h1 ! self)) (data (h1 ! other)) of
             Inl e \<Rightarrow> Inl e
           | Inr d \<Rightarrow>
               (case Tensor h1 (PyArr d) None (Some True) (Some [self, other]) (Some ''@'') of
                  Inl e \<Rightarrow> Inl e
                | Inr (out, h2) \<Rightarrow>
                    Inr (out, if requires_grad (h2 ! self)
                              then set_backward out (MatmulBackward self other out) h2 else h2))))"

definition Tensor_exp :: "heap \<Rightarrow> ref \<Rightarrow> error + (ref \<times> heap)" where
  "Tensor_exp h self =
     (case Tensor h (PyArr (np_exp (data (h ! self)))) None (Some True) (Some [self]) (Some ''exp'') of
        Inl e \<Rightarrow> Inl e
      | Inr (out, h1) \<Rightarrow>
          Inr (out, if requires_grad (h1 ! self)
                    then set_backward out (ExpBackward self out) h1 else h1))"

definition Tensor_neg :: "heap \<Rightarrow> ref \<Rightarrow> error + (ref \<times> heap)" where
  "Tensor_neg h self =
     (case Tensor h (PyArr (np_neg (data (h ! self)))) None (Some True) (Some [self]) (Some ''neg'') of
        Inl e \<Rightarrow> Inl e
      | Inr (out, h1) \<Rightarrow>
          Inr (out, if requires_grad (h1 ! self)
                    then set_backward out (NegBackward self out) h1 else h1))"

definition Tensor_T :: "heap \<Rightarrow> ref \<Rightarrow> error + (ref \<times> heap)" where
  "Tensor_T h self =
     (case Tensor h (PyArr (np_T (data (h ! self)))) None (Some True) (Some [self]) (Some ''T'') of
        Inl e \<Rightarrow> Inl e
      | Inr (out, h1) \<Rightarrow>
          Inr (out, if requires_grad (h1 ! self)
                    then set_backward out (TBackward self out) h1 else h1))"

definition zeros :: "heap \<Rightarrow> nat list \<Rightarrow> string option \<Rightarrow> bool option \<Rightarrow> error + (ref \<times> heap)" where
  "zeros h shp lbl rg =
     Tensor h (PyArr (np_zeros shp)) (Some (dflt [] lbl)) (Some (dflt True rg)) None None"

definition randn ::
  "(nat \<Rightarrow> real) \<Rightarrow> heap \<Rightarrow> nat list \<Rightarrow> string option \<Rightarrow> bool option \<Rightarrow> error + (ref \<times> heap)" where
  "randn draws h shp lbl rg =
     Tensor h (PyArr (np_random_randn draws shp)) (Some (dflt [] lbl)) (Some (dflt True rg))
       None None"

section \<open>Backward rules\<close>

text \<open>
  A rule reads \<open>out.grad\<close> (and \<open>self.grad\<close>, for division) when it is called, and assigns
  \<open>self.grad\<close> before \<open>other.grad\<close>. An unset gradient is Python's \<open>None\<close>, on which
  arithmetic raises (\<open>@\<close> hands it to numpy, which rejects it as a 0-d operand). The result is the exception raised, if any, and the heap as the
  rule left it: an assignment made before the exception stays.
\<close>

definition py_neg :: "ndarray option \<Rightarrow> error + ndarray" where
  "py_neg g = (case g of None \<Rightarrow> Inl TypeError | Some a \<Rightarrow> Inr (np_neg a))"

definition py_mul :: "ndarray \<Rightarrow> ndarray option \<Rightarrow> error + ndarray" where
  "py_mul a g = (case g of None \<Rightarrow> Inl TypeError | Some b \<Rightarrow> np_mul a b)"

definition py_matmul :: "ndarray option \<Rightarrow> ndarray option \<Rightarrow> error + ndarray" where
  "py_matmul x y =
     (case (x, y) of (Some a, Some b) \<Rightarrow> np_matmul a b | _ \<Rightarrow> Inl ValueError)"

definition py_T :: "ndarray option \<Rightarrow> error + ndarray" where
  "py_T g = (case g of None \<Rightarrow> Inl AttributeError | Some a \<Rightarrow> Inr (np_T a))"

text \<open>\<open>target.grad = value\<close>, where computing the value may raise.\<close>

definition assign_grad :: "ref \<Rightarrow> error + ndarray \<Rightarrow> heap \<Rightarrow> error option \<times> heap" where
  "assign_grad r v h =
     (case v of Inl e \<Rightarrow> (Some e, h) | Inr g \<Rightarrow> (None, set_grad r (Some g) h))"

text \<open>Two statements in sequence: the second runs only if the first did not raise.\<close>

definition and_then ::
  "(heap \<Rightarrow> error option \<times> heap) \<Rightarrow> (heap \<Rightarrow> error option \<times> heap) \<Rightarrow> heap \<Rightarrow> error option \<times> heap" where
  "and_then p q h = (case p h of (Some e, h1) \<Rightarrow> (Some e, h1) | (None, h1) \<Rightarrow> q h1)"

fun call :: "closure \<Rightarrow> heap \<Rightarrow> error option \<times> heap" where
  "call NoOp h = (None, h)"
| "call (AddBackward self other out) h =
     (let h1 = set_grad self (grad (h ! out)) h
      in (None, set_grad other (grad (h1 ! out)) h1))"
| "call (SubBackward self other out) h =
     and_then (\<lambda>h. assign_grad self (py_neg (grad (h ! out))) h)
              (\<lambda>h. assign_grad other (py_neg (grad (h ! out))) h) h"
| "call (MulBackward self other out) h =
     and_then (\<lambda>h. assign_grad self (py_neg (grad (h ! out))) h)
              (\<lambda>h. assign_grad other (py_neg (grad (h ! out))) h) h"
| "call (DivBackward self other out) h =
     and_then
       (\<lambda>h. assign_grad self (py_mul (np_pow (data (h ! other)) (- 1)) (grad (h ! out))) h)
       (\<lambda>h. assign_grad other
               (case py_neg (grad (h ! self)) of
                  Inl e \<Rightarrow> Inl e
                | Inr ng \<Rightarrow>
                    (case np_mul ng (np_pow (data (h ! other)) (- 2)) of
                       Inl e \<Rightarrow> Inl e
                     | Inr p \<Rightarrow> py_mul p (grad (h ! out)))) h) h"
| "call (MatmulBackward self other out) h =
     and_then
       (\<lambda>h. assign_grad self (py_matmul (grad (h ! out)) (Some (np_T (data (h ! other))))) h)
       (\<lambda>h. assign_grad other (py_matmul (Some (np_T (data (h ! self)))) (grad (h ! out))) h) h"
| "call (ExpBackward self out) h =
     assign_grad self (py_mul (np_exp (data (h ! self))) (grad (h ! out))) h"
| "call (NegBackward self out) h = assign_grad self (py_neg (grad (h ! out))) h"
| "call (TBackward self out) h = assign_grad self (py_T (grad (h ! out))) h"

text \<open>\<open>t._backward()\<close>.\<close>

definition call_backward :: "ref \<Rightarrow> heap \<Rightarrow> error option \<times> heap" where
  "call_backward t h = call (backward (h ! t)) h"

section \<open>Tracing the graph\<close>

text \<open>
  \<open>build\<close> is the recursive walk inside \<open>trace\<close>; \<open>nodes\<close> and \<open>edges\<close> are the two sets
  it updates. The order in which Python iterates over a set is not fixed by the
  language, so it is the parameter \<open>iter\<close>. The first argument bounds the depth of the
  recursion, as the interpreter's recursion limit does; \<open>None\<close> is the
  \<open>RecursionError\<close>.
\<close>

type_synonym graph = "ref set \<times> (ref \<times> ref) set"

function build :: "(ref set \<Rightarrow> ref list) \<Rightarrow> heap \<Rightarrow> nat \<Rightarrow> ref \<Rightarrow> graph \<Rightarrow> graph option"
  and build_for :: "(ref set \<Rightarrow> ref list) \<Rightarrow> heap \<Rightarrow> nat \<Rightarrow> ref \<Rightarrow> ref list \<Rightarrow> graph \<Rightarrow> graph option"
  where
  "build iter h 0 v g = None"
| "build iter h (Suc n) v (nodes, edges) =
     (if v \<notin> nodes
      then build_for iter h n v (iter (components (h ! v))) (insert v nodes, edges)
      else Some (nodes, edges))"
| "build_for iter h n v [] g = Some g"
| "build_for iter h n v (component # rest) (nodes, edges) =
     (case build iter h n component (nodes, insert (component, v) edges) of
        None \<Rightarrow> None
      | Some g \<Rightarrow> build_for iter h n v rest g)"
  by pat_completeness auto
termination
  by (relation "inv_image (less_than <*lex*> less_than) (\<lambda>x. case x of
          Inl (iter, h, n, v, g) \<Rightarrow> (2 * n, 0)
        | Inr (iter, h, n, v, cs, g) \<Rightarrow> (2 * n + 1, length cs))") auto

definition trace :: "(ref set \<Rightarrow> ref list) \<Rightarrow> nat \<Rightarrow> heap \<Rightarrow> ref \<Rightarrow> graph option" where
  "trace iter limit h rt = build iter h limit rt ({}, {})"

section \<open>Notions used to state the properties\<close>

text \<open>A leaf as the constructor creates it from an array, all other arguments but
  \<open>requires_grad\<close> omitted.\<close>

definition leaf :: "ndarray \<Rightarrow> bool \<Rightarrow> tensor" where
  "leaf d rg = \<lparr> data = d, label = [], requires_grad = rg, grad = None, backward = NoOp,
                 shape = shape_of d, components = {}, operator = [] \<rparr>"

text \<open>The operand relation of the graph, the nodes reachable from a node along it, and the
  (operand, consumer) pairs of a set of consumers.\<close>

definition operand_rel :: "heap \<Rightarrow> (ref \<times> ref) set" where
  "operand_rel h = {(v, c). c \<in> components (h ! v)}"

definition reachable :: "heap \<Rightarrow> ref \<Rightarrow> ref set" where
  "reachable h r = (operand_rel h)\<^sup>* `` {r}"

definition operand_edges :: "heap \<Rightarrow> ref set \<Rightarrow> (ref \<times> ref) set" where
  "operand_edges h N = {(c, v). v \<in> N \<and> c \<in> components (h ! v)}"

text \<open>Every operand of an object of the heap is an object of the heap.\<close>

definition wf_heap :: "heap \<Rightarrow> bool" where
  "wf_heap h = (\<forall>v < length h. \<forall>c \<in> components (h ! v). c < length h)"

text \<open>Iterating over the operand set of an object yields its elements.\<close>

definition iterates :: "(ref set \<Rightarrow> ref list) \<Rightarrow> heap \<Rightarrow> bool" where
  "iterates iter h = (\<forall>v < length h. set (iter (components (h ! v))) = components (h ! v))"

text \<open>
  What a call of \<open>build\<close> adds to the graph collected so far: the nodes grow by nodes
  of \<open>R\<close> only, every added node is an object whose operands have all been added, and the
  edges grow by exactly the operand edges of the added nodes.
\<close>

definition explored :: "heap \<Rightarrow> ref set \<Rightarrow> graph \<Rightarrow> graph \<Rightarrow> bool" where
  "explored h R g g' =
     (fst g \<subseteq> fst g' \<and> fst g' \<subseteq> fst g \<union> R \<and>
      (\<forall>u \<in> fst g' - fst g. u < length h \<and> components (h ! u) \<subseteq> fst g') \<and>
      snd g' = snd g \<union> operand_edges h (fst g' - fst g))"

text \<open>
  A diamond: the leaf \<open>a = Tensor([0.0])\<close> at 0, \<open>x = a.exp()\<close> at 1, \<open>y = -a\<close> at 2
  and \<open>x + y\<close> at 3.
\<close>

definition diamond :: heap where
  "diamond =
     [leaf (NDArray [1] [0]) False,
      \<lparr> data = NDArray [1] [1], label = [], requires_grad = True, grad = None, backward = NoOp,
        shape = [1], components = {0}, operator = ''exp'' \<rparr>,
      \<lparr> data = NDArray [1] [0], label = [], requires_grad = True, grad = None, backward = NoOp,
        shape = [1], components = {0}, operator = ''neg'' \<rparr>,
      \<lparr> data = NDArray [1] [1], label = [], requires_grad = True, grad = None,
        backward = AddBackward 1 2 3, shape = [1], components = {1, 2}, operator = ''+'' \<rparr>]"

text \<open>The object that the right operand of a binary operator denotes once it has been
  coerced: the tensor itself, or the leaf created for a value that is not a tensor.\<close>

definition operand_ref :: "heap \<Rightarrow> operand \<Rightarrow> ref" where
  "operand_ref h other = (case other of IsTensor r \<Rightarrow> r | NotTensor d \<Rightarrow> length h)"

text \<open>Two leaves of shape \<open>(1,)\<close>: \<open>[6.0]\<close> with \<open>requires_grad\<close> set, and \<open>[2.0]\<close> without.\<close>

definition two_leaves :: heap where
  "two_leaves = [leaf (NDArray [1] [6]) True, leaf (NDArray [1] [2]) False]"

text \<open>A right operand that is a tensor is an object of the heap.\<close>

definition valid_operand :: "heap \<Rightarrow> operand \<Rightarrow> bool" where
  "valid_operand h other = (case other of IsTensor r \<Rightarrow> r < length h | NotTensor d \<Rightarrow> True)"

text \<open>
  The gradient of an object is set and has the shape of the object's data. The objects a
  rule assigns to, and the object whose gradient it reads. A rule is ready when its
  objects exist, the object it reads is not one it assigns to, and that object's gradient
  has the shape of its data.
\<close>

definition grad_fits :: "heap \<Rightarrow> ref \<Rightarrow> bool" where
  "grad_fits h r =
     (case grad (h ! r) of None \<Rightarrow> False | Some g \<Rightarrow> shape_of g = shape_of (data (h ! r)))"

fun targets :: "closure \<Rightarrow> ref list" where
  "targets NoOp = []"
| "targets (AddBackward self other out) = [self, other]"
| "targets (SubBackward self other out) = [self, other]"
| "targets (MulBackward self other out) = [self, other]"
| "targets (DivBackward self other out) = [self, other]"
| "targets (MatmulBackward self other out) = [self, other]"
| "targets (ExpBackward self out) = [self]"
| "targets (NegBackward self out) = [self]"
| "targets (TBackward self out) = [self]"

fun out_of :: "closure \<Rightarrow> ref list" where
  "out_of NoOp = []"
| "out_of (AddBackward self other out) = [out]"
| "out_of (SubBackward self other out) = [out]"
| "out_of (MulBackward self other out) = [out]"
| "out_of (DivBackward self other out) = [out]"
| "out_of (MatmulBackward self other out) = [out]"
| "out_of (ExpBackward self out) = [out]"
| "out_of (NegBackward self out) = [out]"
| "out_of (TBackward self out) = [out]"

definition rule_ready :: "heap \<Rightarrow> closure \<Rightarrow> bool" where
  "rule_ready h c =
     (list_all (\<lambda>r. r < length h) (targets c @ out_of c)
      \<and> list_all (\<lambda>out. out \<notin> set (targets c) \<and> grad_fits h out) (out_of c))"

definition same_shape :: "heap \<Rightarrow> ref \<Rightarrow> ref \<Rightarrow> bool" where
  "same_shape h r out = (shape_of (data (h ! r)) = shape_of (data (h ! out)))"

text \<open>
  An operand of a rule was not broadcast: for the elementwise rules its data has the shape
  of the output's data (for divide, the right operand's data moreover broadcasts to that
  shape, as the data of an operand of the forward operation does); for matrix
  multiplication the operands are 2-d, of shapes \<open>(n,m)\<close> and \<open>(m,k)\<close>, and the output's
  shape is \<open>(n,k)\<close>; for transposition the output's shape is the operand's reversed.
\<close>

fun unbroadcast :: "heap \<Rightarrow> closure \<Rightarrow> ref \<Rightarrow> bool" where
  "unbroadcast h NoOp r = True"
| "unbroadcast h (AddBackward self other out) r = same_shape h r out"
| "unbroadcast h (SubBackward self other out) r = same_shape h r out"
| "unbroadcast h (MulBackward self other out) r = same_shape h r out"
| "unbroadcast h (DivBackward self other out) r =
     (same_shape h r out
      \<and> broadcast_shapes (shape_of (data (h ! other))) (shape_of (data (h ! out)))
          = Some (shape_of (data (h ! out))))"
| "unbroadcast h (MatmulBackward self other out) r =
     (case (shape_of (data (h ! self)), shape_of (data (h ! other))) of
        ([n, m], [m', k]) \<Rightarrow> m = m' \<and> shape_of (data (h ! out)) = [n, k]
      | _ \<Rightarrow> False)"
| "unbroadcast h (ExpBackward self out) r = same_shape h r out"
| "unbroadcast h (NegBackward self out) r = same_shape h r out"
| "unbroadcast h (TBackward self out) r =
     (shape_of (data (h ! out)) = rev (shape_of (data (h ! r))))"

text \<open>The rules that assign the output's gradient itself, or its negation.\<close>

fun passes_gradient :: "closure \<Rightarrow> bool" where
  "passes_gradient (AddBackward self other out) = True"
| "passes_gradient (SubBackward self other out) = True"
| "passes_gradient (MulBackward self other out) = True"
| "passes_gradient (NegBackward self out) = True"
| "passes_gradient c = False"

text \<open>Two 2-d leaves: \<open>[[1.0, 2.0]]\<close> with \<open>requires_grad\<close> set, and \<open>[[3.0], [4.0]]\<close>
  without.\<close>

definition two_matrices :: heap where
  "two_matrices = [leaf (NDArray [1, 2] [1, 2]) True, leaf (NDArray [2, 1] [3, 4]) False]"

section \<open>Creating tensors\<close>

lemma Tensor_PyArr:
  "Tensor h (PyArr d) lbl rg comps opr =
     Inr (length h, h @ [\<lparr> data = d, label = dflt [] lbl, requires_grad = dflt False rg,
                      grad = None, backward = NoOp, shape = shape_of d,
                      components = set (dflt [] comps), operator = dflt [] opr \<rparr>])"
  by (simp add: Tensor_def)

section \<open>Arrays of one shape\<close>

lemma concat_shifted_upt: "concat (map (\<lambda>i. map (\<lambda>j. i * p + j) [0..<p]) [0..<d]) = [0..<d * p]"
proof (induction d)
  case 0
  then show ?case by simp
next
  case (Suc d)
  have "map (\<lambda>j. d * p + j) [0..<p] = [d * p..<d * p + p]"
    by (simp add: map_add_upt add.commute)
  moreover have "[0..<d * p] @ [d * p..<d * p + p] = [0..<d * p + p]"
    using upt_add_eq_append[of 0 "d * p" p] by simp
  ultimately show ?case using Suc
    by (simp add: add.commute)
qed

lemma flat_index_indices: "map (flat_index s) (indices s) = [0..<prod_list s]"
proof (induction s)
  case Nil
  then show ?case by simp
next
  case (Cons d ds)
  have "map (flat_index (d # ds)) (indices (d # ds)) =
        concat (map (\<lambda>i. map (\<lambda>j. i * prod_list ds + j) (map (flat_index ds) (indices ds))) [0..<d])"
    by (simp add: map_concat comp_def)
  also have "\<dots> = [0..<d * prod_list ds]"
    by (simp only: Cons.IH concat_shifted_upt)
  finally show ?case by simp
qed

lemma indices_bounds:
  "idx \<in> set (indices s) \<Longrightarrow> length idx = length s \<and> (\<forall>k < length s. idx ! k < s ! k)"
proof (induction s arbitrary: idx)
  case Nil
  then show ?case by simp
next
  case (Cons d ds)
  then obtain i rest where "idx = i # rest" "i < d" "rest \<in> set (indices ds)" by auto
  with Cons.IH[of rest] show ?case by (auto simp: nth_Cons split: nat.splits)
qed

lemma bidx_same: assumes "idx \<in> set (indices s)" shows "bidx s idx = idx"
proof -
  from indices_bounds[OF assms] have len: "length idx = length s" and bd: "\<forall>k < length s. idx ! k < s ! k"
    by auto
  show ?thesis
    unfolding bidx_def using len bd by (auto intro!: nth_equalityI)
qed

lemma broadcast_to_same:
  assumes "length (elems a) = prod_list (shape_of a)"
  shows "broadcast_to (shape_of a) a = elems a"
proof -
  have "broadcast_to (shape_of a) a = map (\<lambda>idx. elems a ! flat_index (shape_of a) idx) (indices (shape_of a))"
    unfolding broadcast_to_def item_def by (rule map_cong) (simp_all add: bidx_same)
  also have "\<dots> = map ((!) (elems a)) (map (flat_index (shape_of a)) (indices (shape_of a)))"
    by (simp add: comp_def)
  also have "\<dots> = elems a"
    unfolding flat_index_indices using assms by (metis map_nth)
  finally show ?thesis .
qed

lemma broadcast_rev_same: "broadcast_rev xs xs = Some xs"
  by (induction xs) auto

lemma broadcast_shapes_same: "broadcast_shapes s s = Some s"
  by (simp add: broadcast_shapes_def broadcast_rev_same)

lemma elementwise_same_shape:
  assumes "shape_of a = shape_of b"
    and "length (elems a) = prod_list (shape_of a)" and "length (elems b) = prod_list (shape_of b)"
  shows "elementwise f a b = Inr (NDArray (shape_of a) (map2 f (elems a) (elems b)))"
  using assms broadcast_to_same[of a] broadcast_to_same[of b]
  by (simp add: elementwise_def broadcast_shapes_same)

lemma elementwise_shape:
  "elementwise f a b = Inr d \<Longrightarrow> broadcast_shapes (shape_of a) (shape_of b) = Some (shape_of d)"
  by (auto simp: elementwise_def split: option.splits)

section \<open>The walk of \<open>build\<close>\<close>

lemma reachable_self: "v \<in> reachable h v"
  by (simp add: reachable_def)

lemma reachable_step:
  assumes "c \<in> components (h ! v)"
  shows "reachable h c \<subseteq> reachable h v"
proof
  fix u assume "u \<in> reachable h c"
  then have "(c, u) \<in> (operand_rel h)\<^sup>*" by (simp add: reachable_def)
  moreover have "(v, c) \<in> operand_rel h" using assms by (simp add: operand_rel_def)
  ultimately have "(v, u) \<in> (operand_rel h)\<^sup>*" by (rule converse_rtrancl_into_rtrancl[rotated])
  then show "u \<in> reachable h v" by (simp add: reachable_def)
qed

lemma reachable_closed:
  assumes "r \<in> N" and closed: "\<And>u c. u \<in> N \<Longrightarrow> c \<in> components (h ! u) \<Longrightarrow> c \<in> N"
  shows "reachable h r \<subseteq> N"
proof
  fix u assume "u \<in> reachable h r"
  then have "(r, u) \<in> (operand_rel h)\<^sup>*" by (simp add: reachable_def)
  then show "u \<in> N"
  proof (induction rule: rtrancl_induct)
    case base
    then show ?case by (rule assms(1))
  next
    case (step y z)
    from step.hyps(2) have "z \<in> components (h ! y)" by (simp add: operand_rel_def)
    with step.IH show ?case by (rule closed)
  qed
qed

lemma operand_edges_empty: "operand_edges h {} = {}"
  by (simp add: operand_edges_def)

lemma operand_edges_Un: "operand_edges h (A \<union> B) = operand_edges h A \<union> operand_edges h B"
  unfolding operand_edges_def by blast

lemma operand_edges_insert:
  "operand_edges h (insert v A) = {(c, v) |c. c \<in> components (h ! v)} \<union> operand_edges h A"
  unfolding operand_edges_def by blast

lemma explored_refl: "explored h R g g"
  by (simp add: explored_def operand_edges_empty)

lemma explored_trans:
  assumes "explored h R1 g g1" and "explored h R2 g1 g2"
  shows "explored h (R1 \<union> R2) g g2"
proof -
  from assms(1) have a1: "fst g \<subseteq> fst g1" and a2: "fst g1 \<subseteq> fst g \<union> R1"
    and a3: "\<And>u. u \<in> fst g1 \<Longrightarrow> u \<notin> fst g \<Longrightarrow> u < length h \<and> components (h ! u) \<subseteq> fst g1"
    and a4: "snd g1 = snd g \<union> operand_edges h (fst g1 - fst g)"
    unfolding explored_def by simp_all
  from assms(2) have b1: "fst g1 \<subseteq> fst g2" and b2: "fst g2 \<subseteq> fst g1 \<union> R2"
    and b3: "\<And>u. u \<in> fst g2 \<Longrightarrow> u \<notin> fst g1 \<Longrightarrow> u < length h \<and> components (h ! u) \<subseteq> fst g2"
    and b4: "snd g2 = snd g1 \<union> operand_edges h (fst g2 - fst g1)"
    unfolding explored_def by simp_all
  have c1: "fst g \<subseteq> fst g2" using a1 b1 by (rule subset_trans)
  have c2: "fst g2 \<subseteq> fst g \<union> (R1 \<union> R2)" using a2 b2 by blast
  have c3: "\<forall>u \<in> fst g2 - fst g. u < length h \<and> components (h ! u) \<subseteq> fst g2"
  proof
    fix u assume u: "u \<in> fst g2 - fst g"
    show "u < length h \<and> components (h ! u) \<subseteq> fst g2"
    proof (cases "u \<in> fst g1")
      case True
      with u a3[of u] b1 show ?thesis by blast
    next
      case False
      with u b3[of u] show ?thesis by blast
    qed
  qed
  have "(fst g1 - fst g) \<union> (fst g2 - fst g1) = fst g2 - fst g" using a1 b1 by blast
  then have c4: "snd g2 = snd g \<union> operand_edges h (fst g2 - fst g)"
    using a4 b4 operand_edges_Un[of h "fst g1 - fst g" "fst g2 - fst g1"]
    by (simp add: Un_assoc)
  show ?thesis unfolding explored_def using c1 c2 c3 c4 by (intro conjI)
qed

lemma explored_more_edges:
  assumes "explored h R g g'"
  shows "explored h R (fst g, snd g \<union> X) (fst g', snd g' \<union> X)"
proof -
  from assms have "snd g' = snd g \<union> operand_edges h (fst g' - fst g)"
    unfolding explored_def by simp
  then have "snd g' \<union> X = (snd g \<union> X) \<union> operand_edges h (fst g' - fst g)" by blast
  with assms show ?thesis unfolding explored_def fst_conv snd_conv by (intro conjI) simp_all
qed

lemma build_for_Cons:
  assumes "build_for iter h n v (c # rest) (N, E) = Some g'"
  obtains g1 where "build iter h n c (N, insert (c, v) E) = Some g1"
    and "build_for iter h n v rest g1 = Some g'"
  using assms by (cases "build iter h n c (N, insert (c, v) E)") simp_all

lemma build_for_sound:
  assumes IH: "\<And>c g g'. build iter h n c g = Some g' \<Longrightarrow> c < length h \<Longrightarrow>
                 explored h (reachable h c) g g' \<and> c \<in> fst g'"
  shows "build_for iter h n v cs g = Some g' \<Longrightarrow> \<forall>c \<in> set cs. c < length h \<Longrightarrow>
         explored h (\<Union>c \<in> set cs. reachable h c) (fst g, snd g \<union> {(c, v) |c. c \<in> set cs}) g'
         \<and> set cs \<subseteq> fst g'"
proof (induction cs arbitrary: g)
  case Nil
  then show ?case by (simp add: explored_refl)
next
  case (Cons c rest)
  let ?X = "{(c, v) |c. c \<in> set rest}"
  obtain N E where g: "g = (N, E)" by (cases g)
  from Cons.prems(1)[unfolded g] obtain g1 where
    b: "build iter h n c (N, insert (c, v) E) = Some g1" and
    f: "build_for iter h n v rest g1 = Some g'"
    by (rule build_for_Cons)
  have cv: "c < length h" and rv: "\<forall>c \<in> set rest. c < length h" using Cons.prems(2) by simp_all
  from IH[OF b cv] have e1: "explored h (reachable h c) (N, insert (c, v) E) g1"
    and c1: "c \<in> fst g1" by simp_all
  from Cons.IH[OF f rv]
  have e2: "explored h (\<Union>c \<in> set rest. reachable h c) (fst g1, snd g1 \<union> ?X) g'"
    and c2: "set rest \<subseteq> fst g'" by simp_all
  have e1': "explored h (reachable h c) (N, insert (c, v) E \<union> ?X) (fst g1, snd g1 \<union> ?X)"
    using explored_more_edges[OF e1, of ?X] unfolding fst_conv snd_conv .
  have e: "explored h (reachable h c \<union> (\<Union>c \<in> set rest. reachable h c))
          (N, insert (c, v) E \<union> ?X) g'"
    using e1' e2 by (rule explored_trans)
  have x: "insert (c, v) E \<union> ?X = E \<union> {(ca, v) |ca. ca \<in> set (c # rest)}"
    by auto
  have r: "reachable h c \<union> (\<Union>c \<in> set rest. reachable h c) = (\<Union>c \<in> set (c # rest). reachable h c)"
    by simp
  have "fst g1 \<subseteq> fst g'" using e2 unfolding explored_def fst_conv by (rule conjunct1)
  with c1 have c3: "c \<in> fst g'" by (rule subsetD[rotated])
  have "explored h (\<Union>c \<in> set (c # rest). reachable h c)
          (fst g, snd g \<union> {(ca, v) |ca. ca \<in> set (c # rest)}) g'"
    using e unfolding x r g fst_conv snd_conv .
  moreover have "set (c # rest) \<subseteq> fst g'" using c2 c3 by simp
  ultimately show ?case by (rule conjI)
qed

lemma build_sound:
  assumes it: "iterates iter h" and wf: "wf_heap h"
  shows "build iter h n v g = Some g' \<Longrightarrow> v < length h \<Longrightarrow>
         explored h (reachable h v) g g' \<and> v \<in> fst g'"
proof (induction n arbitrary: v g g')
  case 0
  then show ?case by simp
next
  case (Suc n)
  obtain N E where g: "g = (N, E)" by (cases g)
  show ?case
  proof (cases "v \<in> N")
    case True
    with Suc.prems(1) g have "g' = g" by simp
    with True g show ?thesis by (simp add: explored_refl)
  next
    case False
    let ?C = "components (h ! v)"
    let ?cs = "iter ?C"
    have cs: "set ?cs = ?C"
      using it Suc.prems(2) by (simp add: iterates_def)
    have valid: "\<forall>c \<in> set ?cs. c < length h"
      unfolding cs using wf Suc.prems(2) by (simp add: wf_heap_def)
    from False Suc.prems(1) g
    have f: "build_for iter h n v ?cs (insert v N, E) = Some g'" by simp
    have "explored h (\<Union>c \<in> set ?cs. reachable h c)
            (fst (insert v N, E), snd (insert v N, E) \<union> {(c, v) |c. c \<in> set ?cs}) g'
          \<and> set ?cs \<subseteq> fst g'"
      using Suc.IH f valid by (rule build_for_sound)
    then have e: "explored h (\<Union>c \<in> ?C. reachable h c) (insert v N, E \<union> {(c, v) |c. c \<in> ?C}) g'"
      and sub: "?C \<subseteq> fst g'"
      unfolding cs fst_conv snd_conv by simp_all
    from e have e1: "insert v N \<subseteq> fst g'"
      and e2: "fst g' \<subseteq> insert v N \<union> (\<Union>c \<in> ?C. reachable h c)"
      and e3: "\<And>u. u \<in> fst g' \<Longrightarrow> u \<notin> insert v N \<Longrightarrow> u < length h \<and> components (h ! u) \<subseteq> fst g'"
      and e4: "snd g' = (E \<union> {(c, v) |c. c \<in> ?C}) \<union> operand_edges h (fst g' - insert v N)"
      unfolding explored_def fst_conv snd_conv by simp_all
    have r: "(\<Union>c \<in> ?C. reachable h c) \<subseteq> reachable h v"
      using reachable_step[of _ h v] by blast
    have vin: "v \<in> fst g'" using e1 by simp
    have 1: "N \<subseteq> fst g'" using e1 by simp
    have 2: "fst g' \<subseteq> N \<union> reachable h v"
      using e2 r reachable_self[of v h] by blast
    have 3: "\<forall>u \<in> fst g' - N. u < length h \<and> components (h ! u) \<subseteq> fst g'"
    proof
      fix u assume u: "u \<in> fst g' - N"
      show "u < length h \<and> components (h ! u) \<subseteq> fst g'"
      proof (cases "u = v")
        case True
        then show ?thesis using sub Suc.prems(2) by simp
      next
        case False
        with u e3[of u] show ?thesis by simp
      qed
    qed
    have "fst g' - N = insert v (fst g' - insert v N)" using vin False by blast
    then have "operand_edges h (fst g' - N) =
               {(c, v) |c. c \<in> ?C} \<union> operand_edges h (fst g' - insert v N)"
      by (simp only: operand_edges_insert)
    with e4 have 4: "snd g' = E \<union> operand_edges h (fst g' - N)" by (simp add: Un_assoc)
    have "explored h (reachable h v) (N, E) g'"
      unfolding explored_def fst_conv snd_conv using 1 2 3 4 by (intro conjI)
    with vin g show ?thesis by simp
  qed
qed

lemma build_mono:
  assumes "iterates iter h" and "wf_heap h" and "build iter h n v g = Some g'" and "v < length h"
  shows "fst g \<subseteq> fst g'"
  using build_sound[OF assms] unfolding explored_def by simp

lemma build_for_total:
  assumes it: "iterates iter h" and wf: "wf_heap h"
    and IH: "\<And>c g. c < length h \<Longrightarrow> card ({..<length h} - fst g) < n \<Longrightarrow>
                \<exists>g'. build iter h n c g = Some g'"
  shows "\<forall>c \<in> set cs. c < length h \<Longrightarrow> card ({..<length h} - fst g) < n \<Longrightarrow>
         \<exists>g'. build_for iter h n v cs g = Some g'"
proof (induction cs arbitrary: g)
  case Nil
  then show ?case by simp
next
  case (Cons c rest)
  obtain N E where g: "g = (N, E)" by (cases g)
  have cv: "c < length h" and rv: "\<forall>c \<in> set rest. c < length h" using Cons.prems(1) by simp_all
  have "card ({..<length h} - fst (N, insert (c, v) E)) < n" using Cons.prems(2) g by simp
  from IH[OF cv this] obtain g1 where b: "build iter h n c (N, insert (c, v) E) = Some g1" ..
  from build_mono[OF it wf b cv] have "N \<subseteq> fst g1" by simp
  then have "{..<length h} - fst g1 \<subseteq> {..<length h} - N" by blast
  then have "card ({..<length h} - fst g1) \<le> card ({..<length h} - N)"
    by (rule card_mono[rotated]) simp
  with Cons.prems(2) g have "card ({..<length h} - fst g1) < n" by simp
  from Cons.IH[OF rv this] obtain g' where "build_for iter h n v rest g1 = Some g'" ..
  with b g show ?case by simp
qed

lemma build_total:
  assumes it: "iterates iter h" and wf: "wf_heap h"
  shows "v < length h \<Longrightarrow> card ({..<length h} - fst g) < n \<Longrightarrow>
         \<exists>g'. build iter h n v g = Some g'"
proof (induction n arbitrary: v g)
  case 0
  then show ?case by simp
next
  case (Suc n)
  obtain N E where g: "g = (N, E)" by (cases g)
  show ?case
  proof (cases "v \<in> N")
    case True
    with g show ?thesis by simp
  next
    case False
    let ?cs = "iter (components (h ! v))"
    have cs: "set ?cs = components (h ! v)"
      using it Suc.prems(1) by (simp add: iterates_def)
    have valid: "\<forall>c \<in> set ?cs. c < length h"
      unfolding cs using wf Suc.prems(1) by (simp add: wf_heap_def)
    have "{..<length h} - insert v N \<subset> {..<length h} - N"
      using False Suc.prems(1) by blast
    then have "card ({..<length h} - insert v N) < card ({..<length h} - N)"
      by (rule psubset_card_mono[rotated]) simp
    with Suc.prems(2) g have small: "card ({..<length h} - fst (insert v N, E)) < n" by simp
    have "\<exists>g'. build_for iter h n v ?cs (insert v N, E) = Some g'"
      using it wf Suc.IH valid small by (rule build_for_total)
    with False g show ?thesis by simp
  qed
qed

section \<open>The diamond\<close>

lemma diamond_built:
  "(case Tensor [] (PySeq [PyFloat 0]) None None None None of
      Inl e \<Rightarrow> None
    | Inr (a, h0) \<Rightarrow>
        (case Tensor_exp h0 a of
           Inl e \<Rightarrow> None
         | Inr (x, h1) \<Rightarrow>
             (case Tensor_neg h1 a of
                Inl e \<Rightarrow> None
              | Inr (y, h2) \<Rightarrow>
                  (case Tensor_add (\<lambda>d. []) h2 x (IsTensor y) of
                     Inl e \<Rightarrow> None
                   | Inr (rt, h3) \<Rightarrow> Some (a, x, y, rt, h3))))) = Some (0, 1, 2, 3, diamond)"
  by (simp add: Tensor_def Tensor_exp_def Tensor_neg_def Tensor_add_def coerce_def dflt_def
      set_backward_def np_exp_def np_neg_def np_add_def elementwise_def broadcast_shapes_def
      broadcast_to_def item_def bidx_def leaf_def diamond_def eval_nat_numeral)


section \<open>Which rule an operator installs\<close>

lemmas op_defs = Tensor_add_def Tensor_sub_def Tensor_mul_def Tensor_truediv_def
  Tensor_matmul_def Tensor_pow_def coerce_def Tensor_def set_backward_def dflt_def

lemma sub_installs:
  assumes "self < length h" and "Tensor_sub str h self other = Inr (out, h1)"
  shows "backward (h1 ! out) =
           (if requires_grad (h ! self) then SubBackward self (operand_ref h other) out else NoOp)"
  using assms
  by (auto simp: op_defs operand_ref_def nth_append split: sum.splits operand.splits if_splits)

lemma mul_installs:
  assumes "self < length h" and "Tensor_mul str h self other = Inr (out, h1)"
  shows "backward (h1 ! out) =
           (if requires_grad (h ! self) then MulBackward self (operand_ref h other) out else NoOp)"
  using assms
  by (auto simp: op_defs operand_ref_def nth_append split: sum.splits operand.splits if_splits)

lemma truediv_installs:
  assumes "self < length h" and "Tensor_truediv str h self other = Inr (out, h1)"
  shows "backward (h1 ! out) =
           (if requires_grad (h ! self) then DivBackward self (operand_ref h other) out else NoOp)"
  using assms
  by (auto simp: op_defs operand_ref_def nth_append split: sum.splits operand.splits if_splits)

lemma matmul_installs:
  assumes "self < length h" and "Tensor_matmul str h self other = Inr (out, h1)"
  shows "backward (h1 ! out) =
           (if requires_grad (h ! self) then MatmulBackward self (operand_ref h other) out else NoOp)"
  using assms
  by (auto simp: op_defs operand_ref_def nth_append split: sum.splits operand.splits if_splits)

lemma add_installs:
  assumes "Tensor_add str h self other = Inr (out, h1)"
  shows "backward (h1 ! out) = AddBackward self (operand_ref h other) out"
  using assms
  by (auto simp: op_defs operand_ref_def nth_append split: sum.splits operand.splits if_splits)

lemma pow_installs:
  assumes "Tensor_pow str h self n = Inr (out, h1)"
  shows "backward (h1 ! out) = NoOp"
  using assms
  by (auto simp: op_defs nth_append Let_def split: sum.splits)

section \<open>The operators on two leaves\<close>

lemmas np_defs = np_add_def np_sub_def np_mul_def np_pow_def np_neg_def np_exp_def
  elementwise_def broadcast_shapes_def broadcast_to_def item_def bidx_def

lemma length_two_leaves: "length two_leaves = 2"
  by (simp add: two_leaves_def)

lemma two_leaves_ops:
  "Tensor_sub (\<lambda>d. []) two_leaves 0 (IsTensor (Suc 0)) =
     Inr (2, two_leaves @ [\<lparr> data = NDArray [1] [4], label = [], requires_grad = True, grad = None,
        backward = SubBackward 0 (Suc 0) 2, shape = [1], components = {0, Suc 0}, operator = ''-'' \<rparr>])"
  "Tensor_mul (\<lambda>d. []) two_leaves 0 (IsTensor (Suc 0)) =
     Inr (2, two_leaves @ [\<lparr> data = NDArray [1] [12], label = [], requires_grad = True, grad = None,
        backward = MulBackward 0 (Suc 0) 2, shape = [1], components = {0, Suc 0}, operator = ''*'' \<rparr>])"
  "Tensor_truediv (\<lambda>d. []) two_leaves 0 (IsTensor (Suc 0)) =
     Inr (2, two_leaves @ [\<lparr> data = NDArray [1] [3], label = [], requires_grad = True, grad = None,
        backward = DivBackward 0 (Suc 0) 2, shape = [1], components = {0, Suc 0}, operator = ''/'' \<rparr>])"
  "Tensor_add (\<lambda>d. []) two_leaves 0 (IsTensor (Suc 0)) =
     Inr (2, two_leaves @ [\<lparr> data = NDArray [1] [8], label = [], requires_grad = True, grad = None,
        backward = AddBackward 0 (Suc 0) 2, shape = [1], components = {0, Suc 0}, operator = ''+'' \<rparr>])"
  by (simp_all add: op_defs two_leaves_def leaf_def np_defs eval_nat_numeral)

lemma two_leaves_matmul:
  "Tensor_matmul (\<lambda>d. []) two_leaves 0 (IsTensor (Suc 0)) =
     Inr (2, two_leaves @ [\<lparr> data = NDArray [] [12], label = [], requires_grad = True, grad = None,
        backward = MatmulBackward 0 (Suc 0) 2, shape = [], components = {0, Suc 0}, operator = ''@'' \<rparr>])"
  by (simp add: op_defs two_leaves_def leaf_def np_matmul_def np_defs eval_nat_numeral)

lemma two_leaves_pow:
  "Tensor_pow (\<lambda>d. []) two_leaves 0 2 =
     Inr (3, two_leaves @ [leaf (NDArray [] [2]) False,
        \<lparr> data = NDArray [1] [36], label = [], requires_grad = True, grad = None,
        backward = NoOp, shape = [1], components = {0, 2}, operator = ''**'' \<rparr>])"
  by (simp add: op_defs two_leaves_def leaf_def np_defs eval_nat_numeral)

section \<open>Assigning gradients and calling rules\<close>

lemma length_set_grad: "length (set_grad r v H) = length H"
  by (simp add: set_grad_def)

lemma grad_set_grad:
  "grad (set_grad r v H ! r') = (if r' = r \<and> r < length H then v else grad (H ! r'))"
  by (cases "r < length H") (simp_all add: set_grad_def nth_list_update list_update_beyond)

lemma data_set_grad: "data (set_grad r v H ! r') = data (H ! r')"
  by (cases "r < length H") (simp_all add: set_grad_def nth_list_update list_update_beyond)

lemma backward_set_grad: "backward (set_grad r v H ! r') = backward (H ! r')"
  by (cases "r < length H") (simp_all add: set_grad_def nth_list_update list_update_beyond)

lemma requires_grad_set_grad: "requires_grad (set_grad r v H ! r') = requires_grad (H ! r')"
  by (cases "r < length H") (simp_all add: set_grad_def nth_list_update list_update_beyond)

lemma set_grad_overwrite: "set_grad r v (set_grad r w H) = set_grad r v H"
  by (cases "r < length H") (simp_all add: set_grad_def list_update_beyond)

lemma set_grad_commute:
  "r \<noteq> r' \<Longrightarrow> set_grad r v (set_grad r' w H) = set_grad r' w (set_grad r v H)"
  by (simp add: set_grad_def list_update_swap)

lemmas set_grad_simps = length_set_grad grad_set_grad data_set_grad backward_set_grad
  requires_grad_set_grad

lemma call_neg_rule:
  assumes "self < length H" and "out < length H" and "out \<noteq> self" and "out \<noteq> other"
    and "grad (H ! out) = Some g"
  shows "call (SubBackward self other out) H =
           (None, set_grad other (Some (np_neg g)) (set_grad self (Some (np_neg g)) H))"
    and "call (MulBackward self other out) H =
           (None, set_grad other (Some (np_neg g)) (set_grad self (Some (np_neg g)) H))"
  using assms by (simp_all add: and_then_def assign_grad_def py_neg_def set_grad_simps)

lemma call_div_rule:
  assumes "self < length H" and "out < length H" and "out \<noteq> self" and "out \<noteq> other"
    and "grad (H ! out) = Some g"
  shows "call (DivBackward self other out) H =
     (case np_mul (np_pow (data (H ! other)) (- 1)) g of
        Inl e \<Rightarrow> (Some e, H)
      | Inr ga \<Rightarrow>
          (case np_mul (np_neg ga) (np_pow (data (H ! other)) (- 2)) of
             Inl e \<Rightarrow> (Some e, set_grad self (Some ga) H)
           | Inr p \<Rightarrow>
               (case np_mul p g of
                  Inl e \<Rightarrow> (Some e, set_grad self (Some ga) H)
                | Inr gb \<Rightarrow> (None, set_grad other (Some gb) (set_grad self (Some ga) H)))))"
  using assms
  by (simp add: and_then_def assign_grad_def py_neg_def py_mul_def set_grad_simps
      split: sum.splits)

lemma call_matmul_rule:
  assumes "self < length H" and "out < length H" and "out \<noteq> self" and "out \<noteq> other"
    and "grad (H ! out) = Some g"
  shows "call (MatmulBackward self other out) H =
     (case np_matmul g (np_T (data (H ! other))) of
        Inl e \<Rightarrow> (Some e, H)
      | Inr ga \<Rightarrow>
          (case np_matmul (np_T (data (H ! self))) g of
             Inl e \<Rightarrow> (Some e, set_grad self (Some ga) H)
           | Inr gb \<Rightarrow> (None, set_grad other (Some gb) (set_grad self (Some ga) H))))"
  using assms
  by (simp add: and_then_def assign_grad_def py_matmul_def set_grad_simps split: sum.splits)

lemma binop_heap:
  assumes "self < length h" and "valid_operand h other"
    and "Tensor_add str h self other = Inr (out, h1) \<or> Tensor_sub str h self other = Inr (out, h1)
       \<or> Tensor_mul str h self other = Inr (out, h1)
       \<or> Tensor_truediv str h self other = Inr (out, h1)
       \<or> Tensor_matmul str h self other = Inr (out, h1)"
  shows "self < out" and "operand_ref h other < out" and "length h1 = Suc out"
    and "h1 ! self = h ! self"
    and "\<And>r. other = IsTensor r \<Longrightarrow> h1 ! r = h ! r"
    and "\<And>d. other = NotTensor d \<Longrightarrow> \<not> requires_grad (h1 ! operand_ref h other)"
    and "grad (h1 ! out) = None"
  using assms
  by (auto simp: op_defs operand_ref_def valid_operand_def nth_append
      split: sum.splits operand.splits if_splits)

lemma truediv_rule_effect:
  assumes a: "a < length h" and v: "valid_operand h other" and rg: "requires_grad (h ! a)"
    and t: "Tensor_truediv str h a other = Inr (out, h1)"
    and H: "H = set_grad a x (set_grad out (Some g) h1)"
  shows "call_backward out H =
     (case np_mul (np_pow (data (h1 ! operand_ref h other)) (- 1)) g of
        Inl e \<Rightarrow> (Some e, H)
      | Inr ga \<Rightarrow>
          (case np_mul (np_neg ga) (np_pow (data (h1 ! operand_ref h other)) (- 2)) of
             Inl e \<Rightarrow> (Some e, set_grad a (Some ga) H)
           | Inr p \<Rightarrow>
               (case np_mul p g of
                  Inl e \<Rightarrow> (Some e, set_grad a (Some ga) H)
                | Inr gb \<Rightarrow>
                    (None, set_grad (operand_ref h other) (Some gb) (set_grad a (Some ga) H)))))"
proof -
  let ?b = "operand_ref h other"
  have t': "Tensor_add str h a other = Inr (out, h1) \<or> Tensor_sub str h a other = Inr (out, h1)
       \<or> Tensor_mul str h a other = Inr (out, h1)
       \<or> Tensor_truediv str h a other = Inr (out, h1)
       \<or> Tensor_matmul str h a other = Inr (out, h1)" using t by simp
  note bh = binop_heap[OF a v t']
  have bw: "backward (H ! out) = DivBackward a ?b out"
    using truediv_installs[OF a t] rg by (simp add: H set_grad_simps)
  have 1: "a < length H" "out < length H" "out \<noteq> a" "out \<noteq> ?b"
    using bh(1,2,3) by (simp_all add: H set_grad_simps)
  have 2: "grad (H ! out) = Some g" using bh(1,3) by (simp add: H set_grad_simps)
  have 3: "data (H ! ?b) = data (h1 ! ?b)" by (simp add: H set_grad_simps)
  show ?thesis unfolding call_backward_def bw call_div_rule[OF 1 2] 3 ..
qed

lemma np_mul_singleton: "np_mul (NDArray [Suc 0] [x]) (NDArray [Suc 0] [y]) = Inr (NDArray [Suc 0] [x * y])"
  by (simp add: np_defs)

lemma two_leaves_div_backward:
  "call_backward 2 (set_grad 0 x (set_grad 2 (Some (NDArray [Suc 0] [1]))
      (two_leaves @ [\<lparr> data = NDArray [Suc 0] [3], label = [], requires_grad = True, grad = None,
        backward = DivBackward 0 (Suc 0) 2, shape = [Suc 0], components = {0, Suc 0},
        operator = ''/'' \<rparr>])))
   = (None,
      [(leaf (NDArray [Suc 0] [6]) True)\<lparr>grad := Some (NDArray [Suc 0] [1 / 2])\<rparr>,
       (leaf (NDArray [Suc 0] [2]) False)\<lparr>grad := Some (NDArray [Suc 0] [- 1 / 8])\<rparr>,
       \<lparr> data = NDArray [Suc 0] [3], label = [], requires_grad = True,
         grad = Some (NDArray [Suc 0] [1]),
         backward = DivBackward 0 (Suc 0) 2, shape = [Suc 0], components = {0, Suc 0},
         operator = ''/'' \<rparr>])"
  by (simp add: call_backward_def set_grad_def two_leaves_def leaf_def and_then_def assign_grad_def
      py_mul_def py_neg_def np_pow_def np_neg_def np_mul_singleton power_int_minus
      eval_nat_numeral field_simps)

lemma neg_rule_effect:
  assumes a: "self < length h" and v: "valid_operand h other"
    and t: "Tensor_sub str h self other = Inr (out, h1) \<and> backward (h1 ! out) = SubBackward self (operand_ref h other) out
          \<or> Tensor_mul str h self other = Inr (out, h1) \<and> backward (h1 ! out) = MulBackward self (operand_ref h other) out"
  shows "\<exists>h2. call_backward out (set_grad out (Some g) h1) = (None, h2)
              \<and> grad (h2 ! operand_ref h other) = Some (np_neg g)"
proof -
  let ?b = "operand_ref h other"
  let ?H = "set_grad out (Some g) h1"
  have t': "Tensor_add str h self other = Inr (out, h1) \<or> Tensor_sub str h self other = Inr (out, h1)
       \<or> Tensor_mul str h self other = Inr (out, h1)
       \<or> Tensor_truediv str h self other = Inr (out, h1)
       \<or> Tensor_matmul str h self other = Inr (out, h1)" using t by blast
  note bh = binop_heap[OF a v t']
  have 1: "self < length ?H" "out < length ?H" "out \<noteq> self" "out \<noteq> ?b"
    using bh(1,2,3) by (simp_all add: set_grad_simps)
  have 2: "grad (?H ! out) = Some g" using bh(3) by (simp add: set_grad_simps)
  have bw: "backward (?H ! out) = SubBackward self ?b out \<or> backward (?H ! out) = MulBackward self ?b out"
    using t by (auto simp: set_grad_simps)
  have lb: "?b < length (set_grad self (Some (np_neg g)) ?H)"
    using bh(2,3) by (simp add: set_grad_simps)
  have "call_backward out ?H =
          (None, set_grad ?b (Some (np_neg g)) (set_grad self (Some (np_neg g)) ?H))"
    using bw
  proof
    assume b: "backward (?H ! out) = SubBackward self ?b out"
    show ?thesis unfolding call_backward_def b by (rule call_neg_rule(1)[OF 1 2])
  next
    assume b: "backward (?H ! out) = MulBackward self ?b out"
    show ?thesis unfolding call_backward_def b by (rule call_neg_rule(2)[OF 1 2])
  qed
  moreover have "grad (set_grad ?b (Some (np_neg g)) (set_grad self (Some (np_neg g)) ?H) ! ?b)
                   = Some (np_neg g)"
    using lb by (simp add: grad_set_grad)
  ultimately show ?thesis by blast
qed

lemma matmul_rule_effect:
  assumes a: "self < length h" and v: "valid_operand h other" and rg: "requires_grad (h ! self)"
    and t: "Tensor_matmul str h self other = Inr (out, h1)"
    and c: "call_backward out (set_grad out (Some g) h1) = (None, h2)"
  shows "\<exists>gb. np_matmul (np_T (data (h ! self))) g = Inr gb
            \<and> grad (h2 ! operand_ref h other) = Some gb"
proof -
  let ?b = "operand_ref h other"
  let ?H = "set_grad out (Some g) h1"
  have t': "Tensor_add str h self other = Inr (out, h1) \<or> Tensor_sub str h self other = Inr (out, h1)
       \<or> Tensor_mul str h self other = Inr (out, h1)
       \<or> Tensor_truediv str h self other = Inr (out, h1)
       \<or> Tensor_matmul str h self other = Inr (out, h1)" using t by blast
  note bh = binop_heap[OF a v t']
  have 1: "self < length ?H" "out < length ?H" "out \<noteq> self" "out \<noteq> ?b"
    using bh(1,2,3) by (simp_all add: set_grad_simps)
  have 2: "grad (?H ! out) = Some g" using bh(3) by (simp add: set_grad_simps)
  have bw: "backward (?H ! out) = MatmulBackward self ?b out"
    using matmul_installs[OF a t] rg by (simp add: set_grad_simps)
  have d: "data (?H ! self) = data (h ! self)" using bh(4) by (simp add: set_grad_simps)
  from c[unfolded call_backward_def bw call_matmul_rule[OF 1 2] d]
  obtain ga gb where gb: "np_matmul (np_T (data (h ! self))) g = Inr gb"
    and h2: "h2 = set_grad ?b (Some gb) (set_grad self (Some ga) ?H)"
    by (auto split: sum.splits)
  have "?b < length (set_grad self (Some ga) ?H)" using bh(2,3) by (simp add: set_grad_simps)
  then have "grad (h2 ! ?b) = Some gb" unfolding h2 by (simp add: grad_set_grad)
  with gb show ?thesis by blast
qed

lemma truediv_other_grad:
  assumes a: "self < length h" and v: "valid_operand h other" and rg: "requires_grad (h ! self)"
    and t: "Tensor_truediv str h self other = Inr (out, h1)"
    and c: "call_backward out (set_grad out (Some g) h1) = (None, h2)"
  shows "\<exists>ga p gb. np_mul (np_pow (data (h1 ! operand_ref h other)) (- 1)) g = Inr ga
            \<and> np_mul (np_neg ga) (np_pow (data (h1 ! operand_ref h other)) (- 2)) = Inr p
            \<and> np_mul p g = Inr gb
            \<and> grad (h2 ! operand_ref h other) = Some gb"
proof -
  let ?b = "operand_ref h other"
  let ?H = "set_grad out (Some g) h1"
  have t': "Tensor_add str h self other = Inr (out, h1) \<or> Tensor_sub str h self other = Inr (out, h1)
       \<or> Tensor_mul str h self other = Inr (out, h1)
       \<or> Tensor_truediv str h self other = Inr (out, h1)
       \<or> Tensor_matmul str h self other = Inr (out, h1)" using t by blast
  note bh = binop_heap[OF a v t']
  have "grad (h1 ! self) = grad (?H ! self)" using bh(1) by (simp add: set_grad_simps)
  then have H: "?H = set_grad self (grad (h1 ! self)) ?H" by (simp add: set_grad_def)
  from truediv_rule_effect[OF a v rg t H] c
  obtain ga p gb where 1: "np_mul (np_pow (data (h1 ! ?b)) (- 1)) g = Inr ga"
    and 2: "np_mul (np_neg ga) (np_pow (data (h1 ! ?b)) (- 2)) = Inr p"
    and 3: "np_mul p g = Inr gb"
    and 4: "h2 = set_grad ?b (Some gb) (set_grad self (Some ga) ?H)"
    by (auto split: sum.splits)
  have "?b < length (set_grad self (Some ga) ?H)" using bh(2,3) by (simp add: set_grad_simps)
  then have "grad (h2 ! ?b) = Some gb" unfolding 4 by (simp add: grad_set_grad)
  with 1 2 3 show ?thesis by blast
qed

section \<open>Shapes of the gradients a rule assigns\<close>

lemma np_mul_shape:
  assumes "shape_of a = shape_of b"
  shows "\<exists>d. np_mul a b = Inr d \<and> shape_of d = shape_of a"
  using assms by (simp add: np_mul_def elementwise_def broadcast_shapes_same)

lemma np_matmul_shape:
  assumes "shape_of a = [n, m]" and "shape_of b = [m, k]"
  shows "\<exists>d. np_matmul a b = Inr d \<and> shape_of d = [n, k]"
  using assms by (simp add: np_matmul_def Let_def broadcast_shapes_def)

lemma shape_simps:
  "shape_of (np_neg a) = shape_of a" "shape_of (np_exp a) = shape_of a"
  "shape_of (np_pow a n) = shape_of a" "shape_of (np_T a) = rev (shape_of a)"
  by (simp_all add: np_neg_def np_exp_def np_pow_def np_T_def)

lemma both_fit:
  assumes "s < length h" and "t < length h"
    and "shape_of ga = shape_of (data (h ! s))" and "shape_of gb = shape_of (data (h ! t))"
    and "s = t \<longrightarrow> shape_of ga = shape_of gb"
  shows "list_all (grad_fits (set_grad t (Some gb) (set_grad s (Some ga) h))) [s, t]"
  using assms by (simp add: grad_fits_def set_grad_simps)

lemma np_mul_shape_of:
  assumes "np_mul a b = Inr d" and "shape_of a = shape_of b"
  shows "shape_of d = shape_of a"
proof -
  from np_mul_shape[OF assms(2)] obtain d' where "np_mul a b = Inr d'" "shape_of d' = shape_of a"
    by blast
  with assms(1) show ?thesis by simp
qed

lemma np_matmul_shape_of:
  assumes "np_matmul a b = Inr d" and "shape_of a = [n, m]" and "shape_of b = [m, k]"
  shows "shape_of d = [n, k]"
proof -
  from np_matmul_shape[OF assms(2,3)] obtain d' where "np_matmul a b = Inr d'" "shape_of d' = [n, k]"
    by blast
  with assms(1) show ?thesis by simp
qed

lemma one_fits:
  assumes "s < length h" and "shape_of ga = shape_of (data (h ! s))"
  shows "list_all (grad_fits (set_grad s (Some ga) h)) [s]"
  using assms by (simp add: grad_fits_def set_grad_simps)

lemma binary_ready:
  assumes "rule_ready h c" and "targets c = [s, t]" and "out_of c = [out]"
  shows "s < length h \<and> t < length h \<and> out < length h \<and> out \<noteq> s \<and> out \<noteq> t
       \<and> (\<exists>g. grad (h ! out) = Some g \<and> shape_of g = shape_of (data (h ! out)))"
  using assms(1) unfolding rule_ready_def assms(2,3) grad_fits_def
  by (cases "grad (h ! out)") simp_all

lemma unary_ready:
  assumes "rule_ready h c" and "targets c = [s]" and "out_of c = [out]"
  shows "s < length h \<and> out < length h \<and> out \<noteq> s
       \<and> (\<exists>g. grad (h ! out) = Some g \<and> shape_of g = shape_of (data (h ! out)))"
  using assms(1) unfolding rule_ready_def assms(2,3) grad_fits_def
  by (cases "grad (h ! out)") simp_all

lemma two_writes:
  assumes "s < length h" and "t < length h"
  shows "grad (set_grad t (Some gb) (set_grad s (Some ga) h) ! t) = Some gb"
    and "s \<noteq> t \<Longrightarrow> grad (set_grad t (Some gb) (set_grad s (Some ga) h) ! s) = Some ga"
    and "data (set_grad t (Some gb) (set_grad s (Some ga) h) ! r) = data (h ! r)"
  using assms by (simp_all add: set_grad_simps)

lemma one_write:
  assumes "s < length h"
  shows "grad (set_grad s (Some ga) h ! s) = Some ga"
    and "data (set_grad s (Some ga) h ! r) = data (h ! r)"
  using assms by (simp_all add: set_grad_simps)

lemma fits_iff:
  assumes "grad (h' ! r) = Some g'" and "data (h' ! r) = data (h ! r)"
    and "shape_of g' = shape_of (data (h ! out))"
  shows "grad_fits h' r = same_shape h r out"
  unfolding grad_fits_def same_shape_def assms(1,2) option.case assms(3) by (rule eq_commute)

lemma fits_if:
  assumes "grad (h' ! r) = Some g'" and "data (h' ! r) = data (h ! r)"
    and "shape_of g' = shape_of (data (h ! r))"
  shows "grad_fits h' r"
  unfolding grad_fits_def assms(1,2) option.case by (rule assms(3))

lemma passes_binary:
  assumes s: "s < length h" and t: "t < length h"
    and h': "h' = set_grad t (Some g') (set_grad s (Some g') h)"
    and g': "shape_of g' = shape_of (data (h ! out))"
  shows "list_all (\<lambda>r. grad_fits h' r = same_shape h r out) [s, t]"
proof -
  have gt: "grad (h' ! t) = Some g'" unfolding h' using s t by (rule two_writes(1))
  have gs: "grad (h' ! s) = Some g'"
  proof (cases "s = t")
    case True
    then show ?thesis using gt by simp
  next
    case False
    show ?thesis unfolding h' using s t False by (rule two_writes(2))
  qed
  have d: "\<And>r. data (h' ! r) = data (h ! r)" unfolding h' using s t by (rule two_writes(3))
  have 1: "grad_fits h' s = same_shape h s out" using gs d g' by (rule fits_iff)
  have 2: "grad_fits h' t = same_shape h t out" using gt d g' by (rule fits_iff)
  show ?thesis using 1 2 by simp
qed

lemma add_rule_shape:
  assumes rr: "rule_ready h (AddBackward s t out)"
    and c: "call (AddBackward s t out) h = (None, h')"
  shows "list_all (\<lambda>r. grad_fits h' r = same_shape h r out) [s, t]"
proof -
  from binary_ready[OF rr, of s t out] obtain g where r: "s < length h" "t < length h"
    "out < length h" "out \<noteq> s" "out \<noteq> t" "grad (h ! out) = Some g"
    and g: "shape_of g = shape_of (data (h ! out))"
    by auto
  from c r have h': "h' = set_grad t (Some g) (set_grad s (Some g) h)"
    by (simp add: set_grad_simps)
  show ?thesis using r(1,2) h' g by (rule passes_binary)
qed

lemma sub_rule_shape:
  assumes rr: "rule_ready h (SubBackward s t out)"
    and c: "call (SubBackward s t out) h = (None, h')"
  shows "list_all (\<lambda>r. grad_fits h' r = same_shape h r out) [s, t]"
proof -
  from binary_ready[OF rr, of s t out] obtain g where r: "s < length h" "t < length h"
    "out < length h" "out \<noteq> s" "out \<noteq> t" "grad (h ! out) = Some g"
    and g: "shape_of g = shape_of (data (h ! out))"
    by auto
  from c[unfolded call_neg_rule(1)[OF r(1,3,4,5,6)]]
  have h': "h' = set_grad t (Some (np_neg g)) (set_grad s (Some (np_neg g)) h)" by simp
  have g': "shape_of (np_neg g) = shape_of (data (h ! out))" unfolding shape_simps by (rule g)
  show ?thesis using r(1,2) h' g' by (rule passes_binary)
qed

lemma mul_rule_shape:
  assumes rr: "rule_ready h (MulBackward s t out)"
    and c: "call (MulBackward s t out) h = (None, h')"
  shows "list_all (\<lambda>r. grad_fits h' r = same_shape h r out) [s, t]"
proof -
  from binary_ready[OF rr, of s t out] obtain g where r: "s < length h" "t < length h"
    "out < length h" "out \<noteq> s" "out \<noteq> t" "grad (h ! out) = Some g"
    and g: "shape_of g = shape_of (data (h ! out))"
    by auto
  from c[unfolded call_neg_rule(2)[OF r(1,3,4,5,6)]]
  have h': "h' = set_grad t (Some (np_neg g)) (set_grad s (Some (np_neg g)) h)" by simp
  have g': "shape_of (np_neg g) = shape_of (data (h ! out))" unfolding shape_simps by (rule g)
  show ?thesis using r(1,2) h' g' by (rule passes_binary)
qed

lemma neg_rule_shape:
  assumes rr: "rule_ready h (NegBackward s out)"
    and c: "call (NegBackward s out) h = (None, h')"
  shows "list_all (\<lambda>r. grad_fits h' r = same_shape h r out) [s]"
proof -
  from unary_ready[OF rr, of s out] obtain g where r: "s < length h" "out < length h"
    "out \<noteq> s" "grad (h ! out) = Some g" and g: "shape_of g = shape_of (data (h ! out))"
    by auto
  from c r(4) have h': "h' = set_grad s (Some (np_neg g)) h"
    by (simp add: assign_grad_def py_neg_def)
  have g': "shape_of (np_neg g) = shape_of (data (h ! out))" unfolding shape_simps by (rule g)
  have gs: "grad (h' ! s) = Some (np_neg g)" unfolding h' using r(1) by (rule one_write(1))
  have d: "data (h' ! s) = data (h ! s)" unfolding h' using r(1) by (rule one_write(2))
  have "grad_fits h' s = same_shape h s out" using gs d g' by (rule fits_iff)
  then show ?thesis by simp
qed

lemma np_mul_broadcast:
  assumes "np_mul a b = Inr d"
  shows "broadcast_shapes (shape_of a) (shape_of b) = Some (shape_of d)"
  using assms unfolding np_mul_def by (rule elementwise_shape)

lemma div_rule_shape:
  assumes rr: "rule_ready h (DivBackward s t out)"
    and c: "call (DivBackward s t out) h = (None, h')"
  shows "list_all (\<lambda>r. unbroadcast h (DivBackward s t out) r \<longrightarrow> grad_fits h' r) [s, t]"
proof -
  from binary_ready[OF rr, of s t out] obtain g where r: "s < length h" "t < length h"
    "out < length h" "out \<noteq> s" "out \<noteq> t" "grad (h ! out) = Some g"
    and g: "shape_of g = shape_of (data (h ! out))"
    by auto
  from c[unfolded call_div_rule[OF r(1,3,4,5,6)]]
  obtain ga p gb where 1: "np_mul (np_pow (data (h ! t)) (- 1)) g = Inr ga"
    and 2: "np_mul (np_neg ga) (np_pow (data (h ! t)) (- 2)) = Inr p"
    and 3: "np_mul p g = Inr gb"
    and h': "h' = set_grad t (Some gb) (set_grad s (Some ga) h)"
    by (auto split: sum.splits)
  have gt: "grad (h' ! t) = Some gb" unfolding h' using r(1,2) by (rule two_writes(1))
  have d: "\<And>r. data (h' ! r) = data (h ! r)" unfolding h' using r(1,2) by (rule two_writes(3))
  have other: "grad_fits h' t" if u: "shape_of (data (h ! t)) = shape_of (data (h ! out))"
  proof -
    have "shape_of (np_pow (data (h ! t)) (- 1)) = shape_of g" unfolding shape_simps u g ..
    from np_mul_shape_of[OF 1 this]
    have a: "shape_of ga = shape_of (data (h ! out))" unfolding shape_simps u .
    have "shape_of (np_neg ga) = shape_of (np_pow (data (h ! t)) (- 2))"
      unfolding shape_simps u by (rule a)
    from np_mul_shape_of[OF 2 this]
    have p: "shape_of p = shape_of (data (h ! out))" unfolding shape_simps a .
    have "shape_of p = shape_of g" unfolding g by (rule p)
    from np_mul_shape_of[OF 3 this]
    have b: "shape_of gb = shape_of (data (h ! out))" unfolding p .
    have "shape_of gb = shape_of (data (h ! t))" unfolding u by (rule b)
    with gt d show ?thesis by (rule fits_if)
  qed
  have self: "grad_fits h' s"
    if u: "shape_of (data (h ! s)) = shape_of (data (h ! out))"
      and bc: "broadcast_shapes (shape_of (data (h ! t))) (shape_of (data (h ! out)))
                 = Some (shape_of (data (h ! out)))"
  proof (cases "s = t")
    case True
    from u have "shape_of (data (h ! t)) = shape_of (data (h ! out))" unfolding True .
    then have "grad_fits h' t" by (rule other)
    then show ?thesis unfolding True .
  next
    case False
    have gs: "grad (h' ! s) = Some ga" unfolding h' using r(1,2) False by (rule two_writes(2))
    from np_mul_broadcast[OF 1]
    have "broadcast_shapes (shape_of (data (h ! t))) (shape_of (data (h ! out))) = Some (shape_of ga)"
      unfolding shape_simps g .
    with bc have "shape_of ga = shape_of (data (h ! out))" by simp
    then have "shape_of ga = shape_of (data (h ! s))" unfolding u .
    with gs d show ?thesis by (rule fits_if)
  qed
  have 1: "unbroadcast h (DivBackward s t out) s \<longrightarrow> grad_fits h' s"
    unfolding unbroadcast.simps same_shape_def using self by blast
  have 2: "unbroadcast h (DivBackward s t out) t \<longrightarrow> grad_fits h' t"
    unfolding unbroadcast.simps same_shape_def using other by blast
  show ?thesis using 1 2 by simp
qed

lemma two_by_two:
  assumes "(case (xs, ys) of ([n, m], [m', k]) \<Rightarrow> m = m' \<and> zs = [n, k] | _ \<Rightarrow> False)"
  shows "\<exists>n m k. xs = [n, m] \<and> ys = [m, k] \<and> zs = [n :: nat, k]"
proof -
  from assms obtain n m where xs: "xs = [n, m]"
    by (cases xs; cases "tl xs"; cases "tl (tl xs)") auto
  from assms obtain m' k where ys: "ys = [m', k]"
    unfolding xs by (cases ys; cases "tl ys"; cases "tl (tl ys)") auto
  from assms have "m = m'" "zs = [n, k]" unfolding xs ys by simp_all
  with xs ys show ?thesis by blast
qed

lemma unbroadcast_matmul:
  assumes "unbroadcast h (MatmulBackward s t out) r"
  shows "\<exists>n m k. shape_of (data (h ! s)) = [n, m] \<and> shape_of (data (h ! t)) = [m, k]
           \<and> shape_of (data (h ! out)) = [n, k]"
  using assms unfolding unbroadcast.simps by (rule two_by_two)

lemma matmul_rule_shape:
  assumes rr: "rule_ready h (MatmulBackward s t out)"
    and c: "call (MatmulBackward s t out) h = (None, h')"
  shows "list_all (\<lambda>r. unbroadcast h (MatmulBackward s t out) r \<longrightarrow> grad_fits h' r) [s, t]"
proof -
  from binary_ready[OF rr, of s t out] obtain g where r: "s < length h" "t < length h"
    "out < length h" "out \<noteq> s" "out \<noteq> t" "grad (h ! out) = Some g"
    and g: "shape_of g = shape_of (data (h ! out))"
    by auto
  from c[unfolded call_matmul_rule[OF r(1,3,4,5,6)]]
  obtain ga gb where 1: "np_matmul g (np_T (data (h ! t))) = Inr ga"
    and 2: "np_matmul (np_T (data (h ! s))) g = Inr gb"
    and h': "h' = set_grad t (Some gb) (set_grad s (Some ga) h)"
    by (auto split: sum.splits)
  have both: "grad_fits h' s \<and> grad_fits h' t" if u: "unbroadcast h (MatmulBackward s t out) x" for x
  proof -
    from unbroadcast_matmul[OF u] obtain n m k where ss: "shape_of (data (h ! s)) = [n, m]"
      and st: "shape_of (data (h ! t)) = [m, k]" and so: "shape_of (data (h ! out)) = [n, k]"
      by blast
    have sg: "shape_of g = [n, k]" unfolding g by (rule so)
    have tt: "shape_of (np_T (data (h ! t))) = [k, m]" unfolding shape_simps st by simp
    have ts: "shape_of (np_T (data (h ! s))) = [m, n]" unfolding shape_simps ss by simp
    have a: "shape_of ga = [n, m]" using 1 sg tt by (rule np_matmul_shape_of)
    have b: "shape_of gb = [m, k]" using 2 ts sg by (rule np_matmul_shape_of)
    have e1: "shape_of ga = shape_of (data (h ! s))" unfolding ss by (rule a)
    have e2: "shape_of gb = shape_of (data (h ! t))" unfolding st by (rule b)
    have e3: "s = t \<longrightarrow> shape_of ga = shape_of gb"
    proof
      assume "s = t"
      with ss st have "[n, m] = [m, k]" by simp
      then show "shape_of ga = shape_of gb" unfolding a b .
    qed
    have "list_all (grad_fits h') [s, t]" unfolding h' using r(1,2) e1 e2 e3 by (rule both_fit)
    then show ?thesis by simp
  qed
  have 1: "unbroadcast h (MatmulBackward s t out) s \<longrightarrow> grad_fits h' s" using both by blast
  have 2: "unbroadcast h (MatmulBackward s t out) t \<longrightarrow> grad_fits h' t" using both by blast
  show ?thesis using 1 2 by simp
qed

lemma exp_rule_shape:
  assumes rr: "rule_ready h (ExpBackward s out)"
    and c: "call (ExpBackward s out) h = (None, h')"
  shows "list_all (\<lambda>r. unbroadcast h (ExpBackward s out) r \<longrightarrow> grad_fits h' r) [s]"
proof -
  from unary_ready[OF rr, of s out] obtain g where r: "s < length h" "out < length h"
    "out \<noteq> s" "grad (h ! out) = Some g" and g: "shape_of g = shape_of (data (h ! out))"
    by auto
  from c r(4) obtain ga where 1: "np_mul (np_exp (data (h ! s))) g = Inr ga"
    and h': "h' = set_grad s (Some ga) h"
    by (auto simp: assign_grad_def py_mul_def split: sum.splits)
  have gs: "grad (h' ! s) = Some ga" unfolding h' using r(1) by (rule one_write(1))
  have d: "data (h' ! s) = data (h ! s)" unfolding h' using r(1) by (rule one_write(2))
  have "grad_fits h' s" if u: "shape_of (data (h ! s)) = shape_of (data (h ! out))"
  proof -
    have "shape_of (np_exp (data (h ! s))) = shape_of g" unfolding shape_simps u g ..
    from np_mul_shape_of[OF 1 this] have "shape_of ga = shape_of (data (h ! s))"
      unfolding shape_simps .
    with gs d show ?thesis by (rule fits_if)
  qed
  then have "unbroadcast h (ExpBackward s out) s \<longrightarrow> grad_fits h' s"
    unfolding unbroadcast.simps same_shape_def by blast
  then show ?thesis by simp
qed

lemma T_rule_shape:
  assumes rr: "rule_ready h (TBackward s out)"
    and c: "call (TBackward s out) h = (None, h')"
  shows "list_all (\<lambda>r. unbroadcast h (TBackward s out) r \<longrightarrow> grad_fits h' r) [s]"
proof -
  from unary_ready[OF rr, of s out] obtain g where r: "s < length h" "out < length h"
    "out \<noteq> s" "grad (h ! out) = Some g" and g: "shape_of g = shape_of (data (h ! out))"
    by auto
  from c r(4) have h': "h' = set_grad s (Some (np_T g)) h"
    by (simp add: assign_grad_def py_T_def)
  have gs: "grad (h' ! s) = Some (np_T g)" unfolding h' using r(1) by (rule one_write(1))
  have d: "data (h' ! s) = data (h ! s)" unfolding h' using r(1) by (rule one_write(2))
  have "grad_fits h' s" if u: "shape_of (data (h ! out)) = rev (shape_of (data (h ! s)))"
  proof -
    have "shape_of (np_T g) = shape_of (data (h ! s))" unfolding shape_simps g u by simp
    with gs d show ?thesis by (rule fits_if)
  qed
  then have "unbroadcast h (TBackward s out) s \<longrightarrow> grad_fits h' s"
    unfolding unbroadcast.simps by blast
  then show ?thesis by simp
qed

text \<open>The output of a division has the shape to which the right operand's data
  broadcasts, so the condition on the right operand in \<open>unbroadcast\<close> holds of every
  node the operator builds.\<close>

lemma broadcast_rev_absorbs:
  "broadcast_rev xs ys = Some zs \<Longrightarrow> broadcast_rev ys zs = Some zs"
proof (induction xs ys arbitrary: zs rule: broadcast_rev.induct)
  case (1 ys)
  then show ?case by (simp add: broadcast_rev_same)
next
  case (2 x xs)
  then show ?case by simp
next
  case (3 x xs y ys)
  from "3.prems" obtain r where r: "broadcast_rev xs ys = Some r"
    and zs: "zs = (if x = y \<or> y = 1 then x # r else y # r)"
    and ok: "x = y \<or> y = 1 \<or> x = 1"
    by (auto split: if_splits)
  have ih: "broadcast_rev ys r = Some r"
  proof (cases "x = y \<or> y = 1")
    case True
    from "3.IH"(1)[OF True r] show ?thesis .
  next
    case False
    with ok have x1: "x = 1" by blast
    from "3.IH"(2)[OF False x1 r] show ?thesis .
  qed
  show ?case
  proof (cases "x = y \<or> y = 1")
    case True
    then show ?thesis unfolding zs using ih by auto
  next
    case False
    then show ?thesis unfolding zs using ih by auto
  qed
qed

lemma broadcast_shapes_absorbs:
  assumes "broadcast_shapes s t = Some u"
  shows "broadcast_shapes t u = Some u"
proof -
  from assms obtain r where r: "broadcast_rev (rev s) (rev t) = Some r" and u: "u = rev r"
    by (auto simp: broadcast_shapes_def)
  from broadcast_rev_absorbs[OF r] show ?thesis
    unfolding broadcast_shapes_def u by simp
qed

lemma truediv_other_broadcasts:
  assumes a: "self < length h" and v: "valid_operand h other"
    and t: "Tensor_truediv str h self other = Inr (out, h1)"
  shows "broadcast_shapes (shape_of (data (h1 ! operand_ref h other)))
           (shape_of (data (h1 ! out))) = Some (shape_of (data (h1 ! out)))"
proof -
  from a v t obtain d where
    d: "np_mul (data (h1 ! self)) (np_pow (data (h1 ! operand_ref h other)) (- 1)) = Inr d"
    and o: "data (h1 ! out) = d"
    by (auto simp: op_defs operand_ref_def valid_operand_def nth_append
        split: sum.splits operand.splits if_splits)
  from elementwise_shape[OF d[unfolded np_mul_def]]
  have "broadcast_shapes (shape_of (data (h1 ! self))) (shape_of (data (h1 ! operand_ref h other)))
          = Some (shape_of d)"
    unfolding shape_simps .
  from broadcast_shapes_absorbs[OF this] show ?thesis unfolding o .
qed

section \<open>Rules that write the right operand's gradient\<close>

lemma length_two_matrices: "length two_matrices = 2"
  by (simp add: two_matrices_def)

lemma np_matmul_row_column:
  "np_matmul (NDArray [Suc 0, Suc (Suc 0)] [a1, a2]) (NDArray [Suc (Suc 0), Suc 0] [b1, b2])
     = Inr (NDArray [Suc 0, Suc 0] [a1 * b1 + a2 * b2])"
  by (simp add: np_matmul_def Let_def broadcast_shapes_def item_def bidx_def eval_nat_numeral)

lemma np_matmul_column_one:
  "np_matmul (NDArray [Suc (Suc 0), Suc 0] [a1, a2]) (NDArray [Suc 0, Suc 0] [g])
     = Inr (NDArray [Suc (Suc 0), Suc 0] [a1 * g, a2 * g])"
  by (simp add: np_matmul_def Let_def broadcast_shapes_def item_def bidx_def eval_nat_numeral)

lemma np_matmul_one_row:
  "np_matmul (NDArray [Suc 0, Suc 0] [g]) (NDArray [Suc 0, Suc (Suc 0)] [b1, b2])
     = Inr (NDArray [Suc 0, Suc (Suc 0)] [g * b1, g * b2])"
  by (simp add: np_matmul_def Let_def broadcast_shapes_def item_def bidx_def eval_nat_numeral)

lemma np_T_row: "np_T (NDArray [Suc 0, Suc (Suc 0)] [a1, a2]) = NDArray [Suc (Suc 0), Suc 0] [a1, a2]"
  by (simp add: np_T_def item_def eval_nat_numeral)

lemma np_T_column: "np_T (NDArray [Suc (Suc 0), Suc 0] [b1, b2]) = NDArray [Suc 0, Suc (Suc 0)] [b1, b2]"
  by (simp add: np_T_def item_def eval_nat_numeral)

lemma two_matrices_matmul:
  "Tensor_matmul (\<lambda>d. []) two_matrices 0 (IsTensor (Suc 0)) =
     Inr (2, two_matrices @ [\<lparr> data = NDArray [Suc 0, Suc 0] [11], label = [],
        requires_grad = True, grad = None, backward = MatmulBackward 0 (Suc 0) 2,
        shape = [Suc 0, Suc 0], components = {0, Suc 0}, operator = ''@'' \<rparr>])"
  by (simp add: op_defs two_matrices_def leaf_def np_matmul_row_column eval_nat_numeral)

lemma two_matrices_matmul_backward:
  "call_backward 2 (set_grad 2 (Some (NDArray [Suc 0, Suc 0] [1]))
      (two_matrices @ [\<lparr> data = NDArray [Suc 0, Suc 0] [11], label = [],
        requires_grad = True, grad = None, backward = MatmulBackward 0 (Suc 0) 2,
        shape = [Suc 0, Suc 0], components = {0, Suc 0}, operator = ''@'' \<rparr>]))
   = (None,
      [\<lparr> data = NDArray [Suc 0, 2] [1, 2], label = [], requires_grad = True,
         grad = Some (NDArray [Suc 0, 2] [3, 4]), backward = NoOp, shape = [Suc 0, 2],
         components = {}, operator = [] \<rparr>,
       \<lparr> data = NDArray [2, Suc 0] [3, 4], label = [], requires_grad = False,
         grad = Some (NDArray [2, Suc 0] [1, 2]), backward = NoOp, shape = [2, Suc 0],
         components = {}, operator = [] \<rparr>,
       \<lparr> data = NDArray [Suc 0, Suc 0] [11], label = [], requires_grad = True,
         grad = Some (NDArray [Suc 0, Suc 0] [1]), backward = MatmulBackward 0 (Suc 0) 2,
         shape = [Suc 0, Suc 0], components = {0, Suc 0}, operator = ''@'' \<rparr>])"
  by (simp add: call_backward_def set_grad_def two_matrices_def leaf_def and_then_def
      assign_grad_def py_matmul_def np_T_row np_T_column np_matmul_column_one np_matmul_one_row
      eval_nat_numeral)

lemma matmul_rule_call:
  assumes a: "self < length h" and v: "valid_operand h other" and rg: "requires_grad (h ! self)"
    and t: "Tensor_matmul str h self other = Inr (out, h1)"
  shows "call_backward out (set_grad out (Some g) h1) =
     (case np_matmul g (np_T (data (h1 ! operand_ref h other))) of
        Inl e \<Rightarrow> (Some e, set_grad out (Some g) h1)
      | Inr ga \<Rightarrow>
          (case np_matmul (np_T (data (h ! self))) g of
             Inl e \<Rightarrow> (Some e, set_grad self (Some ga) (set_grad out (Some g) h1))
           | Inr gb \<Rightarrow>
               (None, set_grad (operand_ref h other) (Some gb)
                        (set_grad self (Some ga) (set_grad out (Some g) h1)))))"
proof -
  let ?b = "operand_ref h other"
  let ?H = "set_grad out (Some g) h1"
  have t': "Tensor_add str h self other = Inr (out, h1) \<or> Tensor_sub str h self other = Inr (out, h1)
       \<or> Tensor_mul str h self other = Inr (out, h1)
       \<or> Tensor_truediv str h self other = Inr (out, h1)
       \<or> Tensor_matmul str h self other = Inr (out, h1)" using t by blast
  note bh = binop_heap[OF a v t']
  have 1: "self < length ?H" "out < length ?H" "out \<noteq> self" "out \<noteq> ?b"
    using bh(1,2,3) by (simp_all add: set_grad_simps)
  have 2: "grad (?H ! out) = Some g" using bh(3) by (simp add: set_grad_simps)
  have bw: "backward (?H ! out) = MatmulBackward self ?b out"
    using matmul_installs[OF a t] rg by (simp add: set_grad_simps)
  have d: "data (?H ! self) = data (h ! self)" using bh(4) by (simp add: set_grad_simps)
  have d': "data (?H ! ?b) = data (h1 ! ?b)" by (simp add: set_grad_simps)
  show ?thesis unfolding call_backward_def bw call_matmul_rule[OF 1 2] d d' ..
qed

lemma other_written:
  assumes a: "self < length h" and v: "valid_operand h other"
    and t: "Tensor_add str h self other = Inr (out, h1) \<or> Tensor_sub str h self other = Inr (out, h1)
       \<or> Tensor_mul str h self other = Inr (out, h1)
       \<or> Tensor_truediv str h self other = Inr (out, h1)
       \<or> Tensor_matmul str h self other = Inr (out, h1)"
  shows "grad (set_grad (operand_ref h other) (Some gb)
                 (set_grad self (Some ga) (set_grad out (Some g) h1)) ! operand_ref h other)
           = Some gb"
proof -
  note bh = binop_heap[OF a v t]
  have "operand_ref h other < length (set_grad self (Some ga) (set_grad out (Some g) h1))"
    using bh(2,3) by (simp add: set_grad_simps)
  then show ?thesis by (simp add: grad_set_grad)
qed

lemma matmul_writes_other:
  assumes a: "self < length h" and v: "valid_operand h other" and rg: "requires_grad (h ! self)"
    and t: "Tensor_matmul str h self other = Inr (out, h1)"
    and 1: "np_matmul g (np_T (data (h1 ! operand_ref h other))) = Inr ga"
    and 2: "np_matmul (np_T (data (h ! self))) g = Inr gb"
  shows "\<exists>h2. call_backward out (set_grad out (Some g) h1) = (None, h2)
            \<and> grad (h2 ! operand_ref h other) = Some gb"
proof -
  have t': "Tensor_add str h self other = Inr (out, h1) \<or> Tensor_sub str h self other = Inr (out, h1)
       \<or> Tensor_mul str h self other = Inr (out, h1)
       \<or> Tensor_truediv str h self other = Inr (out, h1)
       \<or> Tensor_matmul str h self other = Inr (out, h1)" using t by blast
  have "call_backward out (set_grad out (Some g) h1) =
          (None, set_grad (operand_ref h other) (Some gb)
                   (set_grad self (Some ga) (set_grad out (Some g) h1)))"
    unfolding matmul_rule_call[OF a v rg t] by (simp add: 1 2)
  with other_written[OF a v t'] show ?thesis by blast
qed

lemma truediv_writes_other:
  assumes a: "self < length h" and v: "valid_operand h other" and rg: "requires_grad (h ! self)"
    and t: "Tensor_truediv str h self other = Inr (out, h1)"
    and 1: "np_mul (np_pow (data (h1 ! operand_ref h other)) (- 1)) g = Inr ga"
    and 2: "np_mul (np_neg ga) (np_pow (data (h1 ! operand_ref h other)) (- 2)) = Inr p"
    and 3: "np_mul p g = Inr gb"
  shows "\<exists>h2. call_backward out (set_grad out (Some g) h1) = (None, h2)
            \<and> grad (h2 ! operand_ref h other) = Some gb"
proof -
  let ?H = "set_grad out (Some g) h1"
  have t': "Tensor_add str h self other = Inr (out, h1) \<or> Tensor_sub str h self other = Inr (out, h1)
       \<or> Tensor_mul str h self other = Inr (out, h1)
       \<or> Tensor_truediv str h self other = Inr (out, h1)
       \<or> Tensor_matmul str h self other = Inr (out, h1)" using t by blast
  note bh = binop_heap[OF a v t']
  have "grad (h1 ! self) = grad (?H ! self)" using bh(1) by (simp add: set_grad_simps)
  then have H: "?H = set_grad self (grad (h1 ! self)) ?H" by (simp add: set_grad_def)
  have "call_backward out ?H =
          (None, set_grad (operand_ref h other) (Some gb) (set_grad self (Some ga) ?H))"
    unfolding truediv_rule_effect[OF a v rg t H] by (simp add: 1 2 3)
  with other_written[OF a v t'] show ?thesis by blast
qed

lemma truediv_products:
  assumes "shape_of g = shape_of d"
  shows "\<exists>ga p gb. np_mul (np_pow d (- 1)) g = Inr ga
           \<and> np_mul (np_neg ga) (np_pow d (- 2)) = Inr p \<and> np_mul p g = Inr gb
           \<and> shape_of gb = shape_of d"
proof -
  have "shape_of (np_pow d (- 1)) = shape_of g" unfolding shape_simps assms ..
  from np_mul_shape[OF this] obtain ga where 1: "np_mul (np_pow d (- 1)) g = Inr ga"
    and a: "shape_of ga = shape_of d" unfolding shape_simps by blast
  have "shape_of (np_neg ga) = shape_of (np_pow d (- 2))" unfolding shape_simps by (rule a)
  from np_mul_shape[OF this] obtain p where 2: "np_mul (np_neg ga) (np_pow d (- 2)) = Inr p"
    and p: "shape_of p = shape_of d" unfolding shape_simps a by blast
  have "shape_of p = shape_of g" unfolding assms by (rule p)
  from np_mul_shape[OF this] obtain gb where 3: "np_mul p g = Inr gb"
    and b: "shape_of gb = shape_of d" unfolding p by blast
  from 1 2 3 b show ?thesis by blast
qed

lemma matmul_products:
  assumes "shape_of x = [n, m]" and "shape_of y = [m, k]" and "shape_of g = [n, k]"
  shows "\<exists>ga gb. np_matmul g (np_T y) = Inr ga \<and> np_matmul (np_T x) g = Inr gb
           \<and> shape_of gb = [m, k]"
proof -
  have ty: "shape_of (np_T y) = [k, m]" unfolding shape_simps assms(2) by simp
  have tx: "shape_of (np_T x) = [m, n]" unfolding shape_simps assms(1) by simp
  from np_matmul_shape[OF assms(3) ty] obtain ga where 1: "np_matmul g (np_T y) = Inr ga"
    by blast
  from np_matmul_shape[OF tx assms(3)] obtain gb where 2: "np_matmul (np_T x) g = Inr gb"
    and b: "shape_of gb = [m, k]" by blast
  from 1 2 b show ?thesis by blast
qed

lemma sub_writes_other:
  assumes a: "self < length h" and v: "valid_operand h other" and rg: "requires_grad (h ! self)"
  shows "\<forall>out h1. Tensor_sub str h self other = Inr (out, h1) \<longrightarrow>
            (\<exists>h2. call_backward out (set_grad out (Some g) h1) = (None, h2)
                 \<and> grad (h2 ! operand_ref h other) = Some (np_neg g))"
proof (intro allI impI)
  fix out h1 assume t: "Tensor_sub str h self other = Inr (out, h1)"
  from sub_installs[OF a t] rg
  have "backward (h1 ! out) = SubBackward self (operand_ref h other) out" by simp
  with t show "\<exists>h2. call_backward out (set_grad out (Some g) h1) = (None, h2)
                 \<and> grad (h2 ! operand_ref h other) = Some (np_neg g)"
    by (intro neg_rule_effect[OF a v]) blast
qed

lemma mul_writes_other:
  assumes a: "self < length h" and v: "valid_operand h other" and rg: "requires_grad (h ! self)"
  shows "\<forall>out h1. Tensor_mul str h self other = Inr (out, h1) \<longrightarrow>
            (\<exists>h2. call_backward out (set_grad out (Some g) h1) = (None, h2)
                 \<and> grad (h2 ! operand_ref h other) = Some (np_neg g))"
proof (intro allI impI)
  fix out h1 assume t: "Tensor_mul str h self other = Inr (out, h1)"
  from mul_installs[OF a t] rg
  have "backward (h1 ! out) = MulBackward self (operand_ref h other) out" by simp
  with t show "\<exists>h2. call_backward out (set_grad out (Some g) h1) = (None, h2)
                 \<and> grad (h2 ! operand_ref h other) = Some (np_neg g)"
    by (intro neg_rule_effect[OF a v]) blast
qed

lemma truediv_other_all:
  assumes a: "self < length h" and v: "valid_operand h other" and rg: "requires_grad (h ! self)"
  shows "\<forall>out h1. Tensor_truediv str h self other = Inr (out, h1) \<longrightarrow>
     (\<forall>ga p gb. np_mul (np_pow (data (h1 ! operand_ref h other)) (- 1)) g = Inr ga
          \<and> np_mul (np_neg ga) (np_pow (data (h1 ! operand_ref h other)) (- 2)) = Inr p
          \<and> np_mul p g = Inr gb \<longrightarrow>
        (\<exists>h2. call_backward out (set_grad out (Some g) h1) = (None, h2)
             \<and> grad (h2 ! operand_ref h other) = Some gb))
   \<and> (shape_of g = shape_of (data (h1 ! operand_ref h other)) \<longrightarrow>
        (\<exists>h2 gb. call_backward out (set_grad out (Some g) h1) = (None, h2)
             \<and> grad (h2 ! operand_ref h other) = Some gb
             \<and> shape_of gb = shape_of (data (h1 ! operand_ref h other))))
   \<and> (\<forall>h2. call_backward out (set_grad out (Some g) h1) = (None, h2) \<longrightarrow>
        (\<exists>ga p gb. np_mul (np_pow (data (h1 ! operand_ref h other)) (- 1)) g = Inr ga
             \<and> np_mul (np_neg ga) (np_pow (data (h1 ! operand_ref h other)) (- 2)) = Inr p
             \<and> np_mul p g = Inr gb
             \<and> grad (h2 ! operand_ref h other) = Some gb))"
proof (intro allI impI)
  fix out h1 assume t: "Tensor_truediv str h self other = Inr (out, h1)"
  let ?d = "data (h1 ! operand_ref h other)"
  let ?c = "call_backward out (set_grad out (Some g) h1)"
  have 1: "\<forall>ga p gb. np_mul (np_pow ?d (- 1)) g = Inr ga
          \<and> np_mul (np_neg ga) (np_pow ?d (- 2)) = Inr p \<and> np_mul p g = Inr gb \<longrightarrow>
        (\<exists>h2. ?c = (None, h2) \<and> grad (h2 ! operand_ref h other) = Some gb)"
  proof (intro allI impI, elim conjE)
    fix ga p gb
    assume "np_mul (np_pow ?d (- 1)) g = Inr ga" "np_mul (np_neg ga) (np_pow ?d (- 2)) = Inr p"
      "np_mul p g = Inr gb"
    with a v rg t show "\<exists>h2. ?c = (None, h2) \<and> grad (h2 ! operand_ref h other) = Some gb"
      by (rule truediv_writes_other)
  qed
  have 2: "shape_of g = shape_of ?d \<longrightarrow>
        (\<exists>h2 gb. ?c = (None, h2) \<and> grad (h2 ! operand_ref h other) = Some gb
             \<and> shape_of gb = shape_of ?d)"
  proof
    assume "shape_of g = shape_of ?d"
    from truediv_products[OF this] obtain ga p gb where
      e: "np_mul (np_pow ?d (- 1)) g = Inr ga" "np_mul (np_neg ga) (np_pow ?d (- 2)) = Inr p"
        "np_mul p g = Inr gb" and s: "shape_of gb = shape_of ?d" by blast
    from truediv_writes_other[OF a v rg t e] s
    show "\<exists>h2 gb. ?c = (None, h2) \<and> grad (h2 ! operand_ref h other) = Some gb
             \<and> shape_of gb = shape_of ?d" by blast
  qed
  have 3: "\<forall>h2. ?c = (None, h2) \<longrightarrow>
        (\<exists>ga p gb. np_mul (np_pow ?d (- 1)) g = Inr ga
             \<and> np_mul (np_neg ga) (np_pow ?d (- 2)) = Inr p \<and> np_mul p g = Inr gb
             \<and> grad (h2 ! operand_ref h other) = Some gb)"
  proof (intro allI impI)
    fix h2 assume "?c = (None, h2)"
    with a v rg t show "\<exists>ga p gb. np_mul (np_pow ?d (- 1)) g = Inr ga
             \<and> np_mul (np_neg ga) (np_pow ?d (- 2)) = Inr p \<and> np_mul p g = Inr gb
             \<and> grad (h2 ! operand_ref h other) = Some gb"
      by (rule truediv_other_grad)
  qed
  from 1 2 3 show "(\<forall>ga p gb. np_mul (np_pow ?d (- 1)) g = Inr ga
          \<and> np_mul (np_neg ga) (np_pow ?d (- 2)) = Inr p \<and> np_mul p g = Inr gb \<longrightarrow>
        (\<exists>h2. ?c = (None, h2) \<and> grad (h2 ! operand_ref h other) = Some gb))
   \<and> (shape_of g = shape_of ?d \<longrightarrow>
        (\<exists>h2 gb. ?c = (None, h2) \<and> grad (h2 ! operand_ref h other) = Some gb
             \<and> shape_of gb = shape_of ?d))
   \<and> (\<forall>h2. ?c = (None, h2) \<longrightarrow>
        (\<exists>ga p gb. np_mul (np_pow ?d (- 1)) g = Inr ga
             \<and> np_mul (np_neg ga) (np_pow ?d (- 2)) = Inr p \<and> np_mul p g = Inr gb
             \<and> grad (h2 ! operand_ref h other) = Some gb))"
    by (intro conjI)
qed

lemma matmul_other_all:
  assumes a: "self < length h" and v: "valid_operand h other" and rg: "requires_grad (h ! self)"
  shows "\<forall>out h1. Tensor_matmul str h self other = Inr (out, h1) \<longrightarrow>
     (\<forall>ga gb. np_matmul g (np_T (data (h1 ! operand_ref h other))) = Inr ga
          \<and> np_matmul (np_T (data (h ! self))) g = Inr gb \<longrightarrow>
        (\<exists>h2. call_backward out (set_grad out (Some g) h1) = (None, h2)
             \<and> grad (h2 ! operand_ref h other) = Some gb))
   \<and> (\<forall>n m k. shape_of (data (h ! self)) = [n, m]
          \<and> shape_of (data (h1 ! operand_ref h other)) = [m, k] \<and> shape_of g = [n, k] \<longrightarrow>
        (\<exists>h2 gb. call_backward out (set_grad out (Some g) h1) = (None, h2)
             \<and> grad (h2 ! operand_ref h other) = Some gb \<and> shape_of gb = [m, k]))
   \<and> (\<forall>h2. call_backward out (set_grad out (Some g) h1) = (None, h2) \<longrightarrow>
        (\<exists>gb. np_matmul (np_T (data (h ! self))) g = Inr gb
             \<and> grad (h2 ! operand_ref h other) = Some gb))"
proof (intro allI impI)
  fix out h1 assume t: "Tensor_matmul str h self other = Inr (out, h1)"
  let ?d = "data (h1 ! operand_ref h other)"
  let ?c = "call_backward out (set_grad out (Some g) h1)"
  have 1: "\<forall>ga gb. np_matmul g (np_T ?d) = Inr ga
          \<and> np_matmul (np_T (data (h ! self))) g = Inr gb \<longrightarrow>
        (\<exists>h2. ?c = (None, h2) \<and> grad (h2 ! operand_ref h other) = Some gb)"
  proof (intro allI impI, elim conjE)
    fix ga gb
    assume "np_matmul g (np_T ?d) = Inr ga" "np_matmul (np_T (data (h ! self))) g = Inr gb"
    with a v rg t show "\<exists>h2. ?c = (None, h2) \<and> grad (h2 ! operand_ref h other) = Some gb"
      by (rule matmul_writes_other)
  qed
  have 2: "\<forall>n m k. shape_of (data (h ! self)) = [n, m] \<and> shape_of ?d = [m, k]
          \<and> shape_of g = [n, k] \<longrightarrow>
        (\<exists>h2 gb. ?c = (None, h2) \<and> grad (h2 ! operand_ref h other) = Some gb
             \<and> shape_of gb = [m, k])"
  proof (intro allI impI, elim conjE)
    fix n m k
    assume s: "shape_of (data (h ! self)) = [n, m]" "shape_of ?d = [m, k]" "shape_of g = [n, k]"
    from matmul_products[OF s] obtain ga gb where
      e: "np_matmul g (np_T ?d) = Inr ga" "np_matmul (np_T (data (h ! self))) g = Inr gb"
      and sb: "shape_of gb = [m, k]" by blast
    from matmul_writes_other[OF a v rg t e] sb
    show "\<exists>h2 gb. ?c = (None, h2) \<and> grad (h2 ! operand_ref h other) = Some gb
             \<and> shape_of gb = [m, k]" by blast
  qed
  have 3: "\<forall>h2. ?c = (None, h2) \<longrightarrow>
        (\<exists>gb. np_matmul (np_T (data (h ! self))) g = Inr gb
             \<and> grad (h2 ! operand_ref h other) = Some gb)"
  proof (intro allI impI)
    fix h2 assume "?c = (None, h2)"
    with a v rg t show "\<exists>gb. np_matmul (np_T (data (h ! self))) g = Inr gb
             \<and> grad (h2 ! operand_ref h other) = Some gb"
      by (rule matmul_rule_effect)
  qed
  from 1 2 3 show "(\<forall>ga gb. np_matmul g (np_T ?d) = Inr ga
          \<and> np_matmul (np_T (data (h ! self))) g = Inr gb \<longrightarrow>
        (\<exists>h2. ?c = (None, h2) \<and> grad (h2 ! operand_ref h other) = Some gb))
   \<and> (\<forall>n m k. shape_of (data (h ! self)) = [n, m] \<and> shape_of ?d = [m, k]
          \<and> shape_of g = [n, k] \<longrightarrow>
        (\<exists>h2 gb. ?c = (None, h2) \<and> grad (h2 ! operand_ref h other) = Some gb
             \<and> shape_of gb = [m, k]))
   \<and> (\<forall>h2. ?c = (None, h2) \<longrightarrow>
        (\<exists>gb. np_matmul (np_T (data (h ! self))) g = Inr gb
             \<and> grad (h2 ! operand_ref h other) = Some gb))"
    by (intro conjI)
qed

lemma coerced_flag:
  assumes a: "self < length h" and v: "valid_operand h other"
  shows "\<forall>d out h1. other = NotTensor d
              \<and> (Tensor_sub str h self other = Inr (out, h1)
                \<or> Tensor_mul str h self other = Inr (out, h1)
                \<or> Tensor_truediv str h self other = Inr (out, h1)
                \<or> Tensor_matmul str h self other = Inr (out, h1)) \<longrightarrow>
            \<not> requires_grad (h1 ! operand_ref h other)"
proof (intro allI impI)
  fix d out h1
  assume t: "other = NotTensor d
              \<and> (Tensor_sub str h self other = Inr (out, h1)
                \<or> Tensor_mul str h self other = Inr (out, h1)
                \<or> Tensor_truediv str h self other = Inr (out, h1)
                \<or> Tensor_matmul str h self other = Inr (out, h1))"
  then have t': "Tensor_add str h self other = Inr (out, h1) \<or> Tensor_sub str h self other = Inr (out, h1)
       \<or> Tensor_mul str h self other = Inr (out, h1)
       \<or> Tensor_truediv str h self other = Inr (out, h1)
       \<or> Tensor_matmul str h self other = Inr (out, h1)" by blast
  from binop_heap(6)[OF a v t'] t
  show "\<not> requires_grad (h1 ! operand_ref h other)" by blast
qed

section \<open>The properties\<close>

text \<open>
  C1. For tensors \<open>a\<close> and \<open>b\<close> (possibly the same object) with \<open>a.requires_grad\<close> true and
  \<open>out = a * b\<close>: once \<open>out.grad\<close> has been set to \<open>g\<close>, calling \<open>out\<close>'s backward rule
  returns normally and leaves \<open>a.grad = -g\<close> and \<open>b.grad = -g\<close>, \<open>out.grad\<close> being still \<open>g\<close>.
  The data of the operands plays no part.
\<close>

theorem mul_backward_negates:
  assumes "a < length h" and "b < length h" and "requires_grad (h ! a)"
    and "Tensor_mul str h a (IsTensor b) = Inr (out, h1)"
  shows "\<exists>h2. call_backward out (set_grad out (Some g) h1) = (None, h2)
           \<and> grad (h2 ! a) = Some (np_neg g) \<and> grad (h2 ! b) = Some (np_neg g)
           \<and> grad (h2 ! out) = Some g"
  using assms
  by (auto simp: Tensor_mul_def coerce_def Tensor_PyArr call_backward_def set_backward_def
      set_grad_def nth_append and_then_def assign_grad_def py_neg_def dflt_def nth_list_update
      split: sum.splits)

theorem mul_backward_negates_witness:
  "case Tensor_mul (\<lambda>d. []) [leaf (NDArray [1] [2]) True, leaf (NDArray [1] [3]) False] 0 (IsTensor 1) of
     Inl e \<Rightarrow> False
   | Inr (out, h1) \<Rightarrow>
       (case call_backward out (set_grad out (Some (NDArray [1] [1])) h1) of
          (err, h2) \<Rightarrow> err = None \<and> grad (h2 ! 0) = Some (NDArray [1] [- 1])
                        \<and> grad (h2 ! 1) = Some (NDArray [1] [- 1]))"
proof -
  let ?h = "[leaf (NDArray [1] [2]) True, leaf (NDArray [1] [3]) False]"
  obtain out h1 where e: "Tensor_mul (\<lambda>d. []) ?h 0 (IsTensor 1) = Inr (out, h1)"
    by (simp add: Tensor_mul_def coerce_def Tensor_PyArr np_mul_def elementwise_def leaf_def
        broadcast_shapes_def)
  have "0 < length ?h" "1 < length ?h" "requires_grad (?h ! 0)" by (simp_all add: leaf_def)
  from mul_backward_negates[OF this e, of "NDArray [1] [1]"] e
  show ?thesis by (auto simp: np_neg_def)
qed

text \<open>
  C2, as stated, fails: with \<open>a = zeros((2,3))\<close> and \<open>out = a + 5\<close>, the leaf coerced from
  \<open>5\<close> has data of shape \<open>()\<close>; after seeding \<open>out.grad\<close> with ones of shape \<open>(2,3)\<close>,
  \<open>out\<close>'s rule gives that leaf a gradient of shape \<open>(2,3)\<close>.
\<close>

theorem broadcast_grad_shape_counterexample:
  "case zeros [] [2, 3] None None of
     Inl e \<Rightarrow> False
   | Inr (a, h0) \<Rightarrow>
       (case Tensor_add (\<lambda>d. []) h0 a (NotTensor (PyInt 5)) of
          Inl e \<Rightarrow> False
        | Inr (out, h1) \<Rightarrow>
            (case call_backward out (set_grad out (Some (NDArray [2, 3] [1, 1, 1, 1, 1, 1])) h1) of
               (err, h2) \<Rightarrow>
                 err = None \<and> shape_of (data (h1 ! out)) = [2, 3]
                 \<and> operator (h2 ! 1) = [] \<and> components (h2 ! 1) = {}
                 \<and> shape_of (data (h2 ! 1)) = []
                 \<and> map_option shape_of (grad (h2 ! 1)) = Some [2, 3]
                 \<and> \<not> grad_fits h2 1))"
  by (simp add: zeros_def op_defs np_zeros_def np_add_def elementwise_def broadcast_shapes_def
      call_backward_def set_grad_def nth_append grad_fits_def)

text \<open>
  C2, amended. If a node's backward rule is called when the node's gradient has the shape
  of the node's data, and the call returns normally, then every operand that was not
  broadcast has a gradient of exactly the shape of its own data, whatever the shapes of
  the other operand: for \<open>+\<close>, \<open>-\<close>, \<open>*\<close>, \<open>/\<close>, \<open>exp\<close> and negation an operand whose data
  has the node's shape (for \<open>/\<close> the right operand's data broadcasting to the node's
  shape, as it does in every node that \<open>/\<close> builds); for \<open>@\<close> the operands of a product
  of shapes \<open>(n,m)\<close> and \<open>(m,k)\<close> with the node's shape \<open>(n,k)\<close>; for \<open>T\<close> the operand,
  the node's shape being its shape reversed. For \<open>+\<close>, \<open>-\<close>, \<open>*\<close> and
  negation the converse holds too: an operand's gradient has the shape of its data only if
  its data has the node's shape.
\<close>

theorem rule_keeps_grad_shape:
  assumes "rule_ready h (backward (h ! n))" and "call_backward n h = (None, h')"
  shows "list_all (\<lambda>r. unbroadcast h (backward (h ! n)) r \<longrightarrow> grad_fits h' r)
           (targets (backward (h ! n)))
       \<and> (passes_gradient (backward (h ! n)) \<longrightarrow>
            list_all (\<lambda>r. grad_fits h' r = unbroadcast h (backward (h ! n)) r)
              (targets (backward (h ! n))))"
proof -
  from assms(2) have c: "call (backward (h ! n)) h = (None, h')" by (simp add: call_backward_def)
  show ?thesis
  proof (cases "backward (h ! n)")
    case NoOp
    then show ?thesis by simp
  next
    case (AddBackward s t out)
    from add_rule_shape[OF assms(1)[unfolded AddBackward] c[unfolded AddBackward]]
    show ?thesis unfolding AddBackward by simp
  next
    case (SubBackward s t out)
    from sub_rule_shape[OF assms(1)[unfolded SubBackward] c[unfolded SubBackward]]
    show ?thesis unfolding SubBackward by simp
  next
    case (MulBackward s t out)
    from mul_rule_shape[OF assms(1)[unfolded MulBackward] c[unfolded MulBackward]]
    show ?thesis unfolding MulBackward by simp
  next
    case (DivBackward s t out)
    from div_rule_shape[OF assms(1)[unfolded DivBackward] c[unfolded DivBackward]]
    show ?thesis unfolding DivBackward targets.simps passes_gradient.simps by blast
  next
    case (MatmulBackward s t out)
    from matmul_rule_shape[OF assms(1)[unfolded MatmulBackward] c[unfolded MatmulBackward]]
    show ?thesis unfolding MatmulBackward targets.simps passes_gradient.simps by blast
  next
    case (ExpBackward s out)
    from exp_rule_shape[OF assms(1)[unfolded ExpBackward] c[unfolded ExpBackward]]
    show ?thesis unfolding ExpBackward targets.simps passes_gradient.simps by blast
  next
    case (NegBackward s out)
    from neg_rule_shape[OF assms(1)[unfolded NegBackward] c[unfolded NegBackward]]
    show ?thesis unfolding NegBackward by simp
  next
    case (TBackward s out)
    from T_rule_shape[OF assms(1)[unfolded TBackward] c[unfolded TBackward]]
    show ?thesis unfolding TBackward targets.simps passes_gradient.simps by blast
  qed
qed

theorem rule_keeps_grad_shape_witness:
  "case zeros [] [2, 3] None None of
     Inl e \<Rightarrow> False
   | Inr (a, h0) \<Rightarrow>
       (case Tensor_add (\<lambda>d. []) h0 a (NotTensor (PyInt 5)) of
          Inl e \<Rightarrow> False
        | Inr (out, h1) \<Rightarrow>
            rule_ready (set_grad out (Some (NDArray [2, 3] [1, 1, 1, 1, 1, 1])) h1) (backward (h1 ! out))
            \<and> targets (backward (h1 ! out)) = [0, 1]
            \<and> unbroadcast (set_grad out (Some (NDArray [2, 3] [1, 1, 1, 1, 1, 1])) h1)
                 (backward (h1 ! out)) 0
            \<and> \<not> unbroadcast (set_grad out (Some (NDArray [2, 3] [1, 1, 1, 1, 1, 1])) h1)
                 (backward (h1 ! out)) 1
            \<and> (case call_backward out (set_grad out (Some (NDArray [2, 3] [1, 1, 1, 1, 1, 1])) h1) of
                 (err, h2) \<Rightarrow> err = None \<and> grad_fits h2 0 \<and> \<not> grad_fits h2 1))"
proof -
  let ?G = "NDArray [2, 3] [1, 1, 1, 1, 1, 1]"
  have "\<exists>h0 h1. zeros [] [2, 3] None None = Inr (0, h0)
          \<and> Tensor_add (\<lambda>d. []) h0 0 (NotTensor (PyInt 5)) = Inr (2, h1)
          \<and> length h1 = 3 \<and> backward (h1 ! 2) = AddBackward 0 (Suc 0) 2
          \<and> shape_of (data (h1 ! 0)) = [2, 3] \<and> shape_of (data (h1 ! Suc 0)) = []
          \<and> shape_of (data (h1 ! 2)) = [2, 3]"
    by (simp add: zeros_def op_defs np_zeros_def np_add_def elementwise_def broadcast_shapes_def
        nth_append)
  then obtain h0 h1 where z: "zeros [] [2, 3] None None = Inr (0, h0)"
    and a: "Tensor_add (\<lambda>d. []) h0 0 (NotTensor (PyInt 5)) = Inr (2, h1)"
    and len: "length h1 = 3" and b: "backward (h1 ! 2) = AddBackward 0 (Suc 0) 2"
    and s0: "shape_of (data (h1 ! 0)) = [2, 3]" and s1: "shape_of (data (h1 ! Suc 0)) = []"
    and s2: "shape_of (data (h1 ! 2)) = [2, 3]"
    by blast
  let ?H = "set_grad 2 (Some ?G) h1"
  have bH: "backward (?H ! 2) = AddBackward 0 (Suc 0) 2" by (simp add: set_grad_simps b)
  have rr: "rule_ready ?H (backward (?H ! 2))"
    unfolding bH by (simp add: rule_ready_def grad_fits_def set_grad_simps len s2)
  have u0: "unbroadcast ?H (AddBackward 0 (Suc 0) 2) 0"
    by (simp add: same_shape_def set_grad_simps s0 s2)
  have u1: "\<not> unbroadcast ?H (AddBackward 0 (Suc 0) 2) (Suc 0)"
    by (simp add: same_shape_def set_grad_simps s1 s2)
  have "\<exists>h2. call_backward 2 ?H = (None, h2)"
    unfolding call_backward_def bH by (simp add: Let_def)
  then obtain h2 where c: "call_backward 2 ?H = (None, h2)" ..
  from rule_keeps_grad_shape[OF rr c] u0 u1
  have f: "grad_fits h2 0" "\<not> grad_fits h2 (Suc 0)"
    unfolding bH by simp_all
  have rr': "rule_ready ?H (AddBackward 0 (Suc 0) 2)" using rr unfolding bH .
  show ?thesis using z a b rr' u0 u1 c f by simp
qed

text \<open>
  C3. Whenever the operator returns a tensor \<open>out\<close>: for subtract, multiply, divide and
  matrix-multiply, \<open>out\<close>'s backward rule is the operator's own rule if
  \<open>self.requires_grad\<close> is true and the constructor's no-op otherwise; for add it is add's
  rule whatever the flags of the operands; for power it is the no-op.
\<close>

theorem backward_rule_installation:
  assumes "self < length h"
  shows "(\<forall>out h1. Tensor_sub str h self other = Inr (out, h1) \<longrightarrow>
            backward (h1 ! out) =
              (if requires_grad (h ! self) then SubBackward self (operand_ref h other) out else NoOp))
       \<and> (\<forall>out h1. Tensor_mul str h self other = Inr (out, h1) \<longrightarrow>
            backward (h1 ! out) =
              (if requires_grad (h ! self) then MulBackward self (operand_ref h other) out else NoOp))
       \<and> (\<forall>out h1. Tensor_truediv str h self other = Inr (out, h1) \<longrightarrow>
            backward (h1 ! out) =
              (if requires_grad (h ! self) then DivBackward self (operand_ref h other) out else NoOp))
       \<and> (\<forall>out h1. Tensor_matmul str h self other = Inr (out, h1) \<longrightarrow>
            backward (h1 ! out) =
              (if requires_grad (h ! self) then MatmulBackward self (operand_ref h other) out else NoOp))
       \<and> (\<forall>out h1. Tensor_add str h self other = Inr (out, h1) \<longrightarrow>
            backward (h1 ! out) = AddBackward self (operand_ref h other) out)
       \<and> (\<forall>out h1. Tensor_pow str h self n = Inr (out, h1) \<longrightarrow> backward (h1 ! out) = NoOp)"
  using sub_installs[OF assms] mul_installs[OF assms] truediv_installs[OF assms]
    matmul_installs[OF assms] add_installs pow_installs
  by (intro conjI allI impI)

theorem backward_rule_installation_witness:
  "(case Tensor_sub (\<lambda>d. []) two_leaves 0 (IsTensor 1) of
      Inl e \<Rightarrow> False | Inr (out, h1) \<Rightarrow> backward (h1 ! out) = SubBackward 0 1 2)
   \<and> (case Tensor_mul (\<lambda>d. []) two_leaves 0 (IsTensor 1) of
      Inl e \<Rightarrow> False | Inr (out, h1) \<Rightarrow> backward (h1 ! out) = MulBackward 0 1 2)
   \<and> (case Tensor_truediv (\<lambda>d. []) two_leaves 0 (IsTensor 1) of
      Inl e \<Rightarrow> False | Inr (out, h1) \<Rightarrow> backward (h1 ! out) = DivBackward 0 1 2)
   \<and> (case Tensor_matmul (\<lambda>d. []) two_leaves 0 (IsTensor 1) of
      Inl e \<Rightarrow> False | Inr (out, h1) \<Rightarrow> backward (h1 ! out) = MatmulBackward 0 1 2)
   \<and> (case Tensor_add (\<lambda>d. []) two_leaves 0 (IsTensor 1) of
      Inl e \<Rightarrow> False | Inr (out, h1) \<Rightarrow> backward (h1 ! out) = AddBackward 0 1 2)
   \<and> (case Tensor_pow (\<lambda>d. []) two_leaves 0 2 of
      Inl e \<Rightarrow> False | Inr (out, h1) \<Rightarrow> backward (h1 ! out) = NoOp)
   \<and> (case Tensor_sub (\<lambda>d. []) two_leaves 1 (IsTensor 0) of
      Inl e \<Rightarrow> False | Inr (out, h1) \<Rightarrow> backward (h1 ! out) = NoOp)"
proof -
  have 0: "0 < length two_leaves" and 1: "1 < length two_leaves"
    and rg: "requires_grad (two_leaves ! 0)" "\<not> requires_grad (two_leaves ! 1)"
    by (simp_all add: two_leaves_def leaf_def)
  obtain out h1 where s: "Tensor_sub (\<lambda>d. []) two_leaves 1 (IsTensor 0) = Inr (out, h1)"
    by (simp add: op_defs two_leaves_def leaf_def np_defs)
  note r0 = backward_rule_installation[OF 0, of "\<lambda>d. []" "IsTensor 1" 2]
  note r1 = backward_rule_installation[OF 1, of "\<lambda>d. []" "IsTensor 0" 2]
  from r1 s rg have "backward (h1 ! out) = NoOp" by simp
  with s r0 rg show ?thesis
    by (simp add: two_leaves_ops two_leaves_matmul two_leaves_pow operand_ref_def nth_append
        length_two_leaves)
qed

text \<open>
  C4, as stated, fails: \<open>a = Tensor([0.0])\<close> has the constructor's default
  \<open>requires_grad = False\<close>, so \<open>exp\<close> installs no rule; \<open>exp(a).data\<close> is \<open>[1.0]\<close>, but
  calling the backward rule of \<open>exp(a)\<close> after seeding its gradient with \<open>[1.0]\<close> does nothing
  and \<open>a.grad\<close> stays unset.
\<close>

theorem exp_default_leaf_counterexample:
  "case Tensor [] (PySeq [PyFloat 0]) None None None None of
     Inl e \<Rightarrow> False
   | Inr (a, h0) \<Rightarrow>
       (case Tensor_exp h0 a of
          Inl e \<Rightarrow> False
        | Inr (out, h1) \<Rightarrow>
            data (h1 ! out) = NDArray [1] [1]
            \<and> call_backward out (set_grad out (Some (NDArray [1] [1])) h1)
                = (None, set_grad out (Some (NDArray [1] [1])) h1)
            \<and> grad (snd (call_backward out (set_grad out (Some (NDArray [1] [1])) h1)) ! a) = None
            \<and> grad (snd (call_backward out (set_grad out (Some (NDArray [1] [1])) h1)) ! a)
                \<noteq> Some (NDArray [1] [1]))"
  by (simp add: Tensor_def Tensor_exp_def dflt_def np_exp_def call_backward_def set_grad_def)

text \<open>
  C4, amended. For a leaf \<open>a\<close> built from \<open>[0.0]\<close>, \<open>exp(a).data\<close> is \<open>[1.0]\<close>; after seeding
  the gradient of \<open>exp(a)\<close> with \<open>[1.0]\<close> and calling its backward rule, \<open>a.grad\<close> is \<open>[1.0]\<close>
  if \<open>a\<close> was built with \<open>requires_grad=True\<close>, and is unset if \<open>requires_grad\<close> was omitted
  or false.
\<close>

theorem exp_round_trip:
  "\<exists>a h0 out h1 h2.
     Tensor h (PySeq [PyFloat 0]) lbl rg None None = Inr (a, h0)
     \<and> Tensor_exp h0 a = Inr (out, h1)
     \<and> data (h1 ! out) = NDArray [1] [1]
     \<and> call_backward out (set_grad out (Some (NDArray [1] [1])) h1) = (None, h2)
     \<and> grad (h2 ! a) = (if dflt False rg then Some (NDArray [1] [1]) else None)"
  by (auto simp: Tensor_def Tensor_exp_def dflt_def np_exp_def call_backward_def set_grad_def
      set_backward_def nth_append assign_grad_def py_mul_def np_defs nth_list_update
      split: option.splits)

theorem exp_round_trip_witness:
  "(case Tensor [] (PySeq [PyFloat 0]) None (Some True) None None of
     Inl e \<Rightarrow> False
   | Inr (a, h0) \<Rightarrow>
       (case Tensor_exp h0 a of
          Inl e \<Rightarrow> False
        | Inr (out, h1) \<Rightarrow>
            data (h1 ! out) = NDArray [1] [1]
            \<and> fst (call_backward out (set_grad out (Some (NDArray [1] [1])) h1)) = None
            \<and> grad (snd (call_backward out (set_grad out (Some (NDArray [1] [1])) h1)) ! a)
                = Some (NDArray [1] [1])))"
  using exp_round_trip[of "[]" None "Some True"]
  by (auto simp: dflt_def)

text \<open>
  C5. For tensors \<open>a\<close> and \<open>b\<close> for which \<open>a + b\<close> returns a tensor \<open>out\<close>: \<open>out.data\<close> is
  numpy's \<open>a.data + b.data\<close> (for well-formed arrays of one shape, the array of the sums of
  corresponding elements), the operands of \<open>out\<close> are the set \<open>{a, b}\<close>, its operator tag is
  \<open>+\<close>, its \<open>requires_grad\<close> is true whatever the flags of \<open>a\<close> and \<open>b\<close>, and \<open>a\<close> and \<open>b\<close>
  are unchanged.
\<close>

theorem add_forward:
  assumes "a < length h" and "b < length h"
    and "Tensor_add str h a (IsTensor b) = Inr (out, h1)"
  shows "np_add (data (h ! a)) (data (h ! b)) = Inr (data (h1 ! out))
       \<and> components (h1 ! out) = {a, b}
       \<and> operator (h1 ! out) = ''+''
       \<and> requires_grad (h1 ! out)
       \<and> h1 ! a = h ! a \<and> h1 ! b = h ! b
       \<and> (shape_of (data (h ! a)) = shape_of (data (h ! b))
            \<and> length (elems (data (h ! a))) = prod_list (shape_of (data (h ! a)))
            \<and> length (elems (data (h ! b))) = prod_list (shape_of (data (h ! b)))
          \<longrightarrow> data (h1 ! out) =
                NDArray (shape_of (data (h ! a)))
                  (map2 (+) (elems (data (h ! a))) (elems (data (h ! b)))))"
proof -
  from assms obtain d where d: "np_add (data (h ! a)) (data (h ! b)) = Inr d"
    and out: "out = length h"
    and h1: "h1 = h @ [\<lparr> data = d, label = [], requires_grad = True, grad = None,
                 backward = AddBackward a b out, shape = shape_of d,
                 components = {a, b}, operator = ''+'' \<rparr>]"
    by (auto simp: op_defs split: sum.splits)
  have same: "shape_of (data (h ! a)) = shape_of (data (h ! b))
            \<and> length (elems (data (h ! a))) = prod_list (shape_of (data (h ! a)))
            \<and> length (elems (data (h ! b))) = prod_list (shape_of (data (h ! b)))
          \<longrightarrow> d = NDArray (shape_of (data (h ! a)))
                  (map2 (+) (elems (data (h ! a))) (elems (data (h ! b))))"
    using d elementwise_same_shape[of "data (h ! a)" "data (h ! b)" "(+)"]
    by (auto simp: np_add_def)
  show ?thesis using d same assms(1,2) unfolding h1 out by (simp add: nth_append)
qed

theorem add_forward_witness:
  "case Tensor_add (\<lambda>d. []) two_leaves 0 (IsTensor 1) of
     Inl e \<Rightarrow> False
   | Inr (out, h1) \<Rightarrow> data (h1 ! out) = NDArray [1] [8] \<and> components (h1 ! out) = {0, 1}
       \<and> operator (h1 ! out) = ''+'' \<and> requires_grad (h1 ! out)
       \<and> np_add (NDArray [1] [6]) (NDArray [1] [2]) = Inr (NDArray [1] [8])"
proof -
  have 0: "0 < length two_leaves" and 1: "1 < length two_leaves"
    by (simp_all add: two_leaves_def)
  have d: "data (two_leaves ! 0) = NDArray [1] [6]" "data (two_leaves ! 1) = NDArray [1] [2]"
    by (simp_all add: two_leaves_def leaf_def)
  from add_forward[OF 0 1, of "\<lambda>d. []"] show ?thesis
    unfolding d by (simp add: two_leaves_ops nth_append length_two_leaves)
qed

text \<open>
  C6. For tensors \<open>a\<close> and \<open>b\<close> with \<open>a.requires_grad\<close> true and \<open>out = a / b\<close>:
  \<open>out.data\<close> is \<open>a.data * b.data**-1\<close>; if calling \<open>out\<close>'s backward rule with
  \<open>out.grad = g\<close> returns normally, it has assigned \<open>a.grad = b.data**-1 * g\<close> and then
  \<open>b.grad = -a.grad * b.data**-2 * g\<close>, with \<open>a.grad\<close> the value just assigned. The final
  \<open>b.grad\<close> is that value, and so is the final \<open>a.grad\<close> unless \<open>a\<close> and \<open>b\<close> are one
  object (whose gradient is then the second value).
\<close>

theorem truediv_rule:
  assumes "a < length h" and "b < length h" and "requires_grad (h ! a)"
    and "Tensor_truediv str h a (IsTensor b) = Inr (out, h1)"
    and "call_backward out (set_grad out (Some g) h1) = (None, h2)"
  shows "np_mul (data (h ! a)) (np_pow (data (h ! b)) (- 1)) = Inr (data (h1 ! out))
       \<and> (\<exists>ga p gb.
             np_mul (np_pow (data (h ! b)) (- 1)) g = Inr ga
           \<and> np_mul (np_neg ga) (np_pow (data (h ! b)) (- 2)) = Inr p
           \<and> np_mul p g = Inr gb
           \<and> h2 = set_grad b (Some gb) (set_grad a (Some ga) (set_grad out (Some g) h1))
           \<and> grad (h2 ! b) = Some gb
           \<and> (a \<noteq> b \<longrightarrow> grad (h2 ! a) = Some ga))"
proof (rule conjI)
  from assms(1,2,4) show "np_mul (data (h ! a)) (np_pow (data (h ! b)) (- 1)) = Inr (data (h1 ! out))"
    by (auto simp: op_defs nth_append split: sum.splits if_splits)
next
  let ?H = "set_grad out (Some g) h1"
  have v: "valid_operand h (IsTensor b)" using assms(2) by (simp add: valid_operand_def)
  have t': "Tensor_add str h a (IsTensor b) = Inr (out, h1) \<or> Tensor_sub str h a (IsTensor b) = Inr (out, h1)
       \<or> Tensor_mul str h a (IsTensor b) = Inr (out, h1)
       \<or> Tensor_truediv str h a (IsTensor b) = Inr (out, h1)
       \<or> Tensor_matmul str h a (IsTensor b) = Inr (out, h1)" using assms(4) by simp
  note bh = binop_heap[OF assms(1) v t']
  have b: "operand_ref h (IsTensor b) = b" by (simp add: operand_ref_def)
  have db: "data (h1 ! b) = data (h ! b)" using bh(5) by simp
  have ga0: "grad (h1 ! a) = grad (?H ! a)" using bh(1) by (simp add: set_grad_simps)
  have H: "?H = set_grad a (grad (h1 ! a)) ?H"
    unfolding ga0 by (simp add: set_grad_def)
  from truediv_rule_effect[OF assms(1) v assms(3,4) H] assms(5)
  obtain ga p gb where 1: "np_mul (np_pow (data (h ! b)) (- 1)) g = Inr ga"
    and 2: "np_mul (np_neg ga) (np_pow (data (h ! b)) (- 2)) = Inr p"
    and 3: "np_mul p g = Inr gb"
    and 4: "h2 = set_grad b (Some gb) (set_grad a (Some ga) ?H)"
    unfolding b db by (auto split: sum.splits)
  have lb: "b < length (set_grad a (Some ga) ?H)" and la: "a < length ?H"
    using bh(2,3) bh(1) unfolding b by (simp_all add: set_grad_simps)
  have 5: "grad (h2 ! b) = Some gb" unfolding 4 using lb by (simp add: grad_set_grad)
  have 6: "a \<noteq> b \<longrightarrow> grad (h2 ! a) = Some ga"
    unfolding 4 using la by (simp add: grad_set_grad)
  from 1 2 3 4 5 6 show "\<exists>ga p gb.
             np_mul (np_pow (data (h ! b)) (- 1)) g = Inr ga
           \<and> np_mul (np_neg ga) (np_pow (data (h ! b)) (- 2)) = Inr p
           \<and> np_mul p g = Inr gb
           \<and> h2 = set_grad b (Some gb) (set_grad a (Some ga) (set_grad out (Some g) h1))
           \<and> grad (h2 ! b) = Some gb
           \<and> (a \<noteq> b \<longrightarrow> grad (h2 ! a) = Some ga)" by blast
qed

theorem truediv_rule_witness:
  "case Tensor_truediv (\<lambda>d. []) two_leaves 0 (IsTensor 1) of
     Inl e \<Rightarrow> False
   | Inr (out, h1) \<Rightarrow>
       data (h1 ! out) = NDArray [1] [3]
       \<and> (case call_backward out (set_grad out (Some (NDArray [1] [1])) h1) of
            (err, h2) \<Rightarrow> err = None \<and> grad (h2 ! 0) = Some (NDArray [1] [1 / 2])
                          \<and> grad (h2 ! 1) = Some (NDArray [1] [- 1 / 8]))"
proof -
  let ?n = "\<lparr> data = NDArray [1] [3], label = [], requires_grad = True, grad = None,
        backward = DivBackward 0 (Suc 0) 2, shape = [1], components = {0, Suc 0},
        operator = ''/'' \<rparr>"
  let ?G = "NDArray [Suc 0] [1]"
  have 0: "0 < length two_leaves" and 1: "Suc 0 < length two_leaves"
    and rg: "requires_grad (two_leaves ! 0)"
    by (simp_all add: two_leaves_def leaf_def)
  have e: "Tensor_truediv (\<lambda>d. []) two_leaves 0 (IsTensor (Suc 0)) = Inr (2, two_leaves @ [?n])"
    by (rule two_leaves_ops(3))
  have "set_grad 2 (Some ?G) (two_leaves @ [?n]) = set_grad 0 None (set_grad 2 (Some ?G) (two_leaves @ [?n]))"
    by (simp add: set_grad_def two_leaves_def leaf_def)
  with two_leaves_div_backward[of None]
  obtain h2 where c: "call_backward 2 (set_grad 2 (Some ?G) (two_leaves @ [?n])) = (None, h2)"
    by simp
  from truediv_rule[OF 0 1 rg e c]
  obtain ga p gb where d: "data ((two_leaves @ [?n]) ! 2) = NDArray [1] [3]"
    and ga: "np_mul (np_pow (data (two_leaves ! Suc 0)) (- 1)) ?G = Inr ga"
    and p: "np_mul (np_neg ga) (np_pow (data (two_leaves ! Suc 0)) (- 2)) = Inr p"
    and gb: "np_mul p ?G = Inr gb"
    and r: "grad (h2 ! Suc 0) = Some gb" "grad (h2 ! 0) = Some ga"
    by (auto simp: nth_append length_two_leaves)
  from ga have ga': "ga = NDArray [Suc 0] [1 / 2]"
    by (simp add: two_leaves_def leaf_def np_pow_def np_mul_singleton power_int_minus)
  from p have p': "p = NDArray [Suc 0] [- 1 / 8]"
    by (simp add: ga' two_leaves_def leaf_def np_pow_def np_neg_def np_mul_singleton
        power_int_minus eval_nat_numeral field_simps)
  from gb have gb': "gb = NDArray [Suc 0] [- 1 / 8]" by (simp add: p' np_mul_singleton)
  show ?thesis using e c d r by (simp add: ga' gb')
qed

text \<open>
  C7, as stated, fails: the value that divide's rule writes into \<open>other.grad\<close> is the same
  whether \<open>self.grad\<close> was unset or \<open>[100.0]\<close> before the call. With \<open>a = [6.0]\<close>,
  \<open>b = [2.0]\<close> and \<open>out.grad = [1.0]\<close> it is \<open>[-0.125]\<close> in both cases.
\<close>

theorem truediv_prior_self_grad_counterexample:
  "case Tensor_truediv (\<lambda>d. []) two_leaves 0 (IsTensor 1) of
     Inl e \<Rightarrow> False
   | Inr (out, h1) \<Rightarrow>
       grad (snd (call_backward out
              (set_grad 0 None (set_grad out (Some (NDArray [1] [1])) h1))) ! 1)
         = Some (NDArray [1] [- 1 / 8])
       \<and> grad (snd (call_backward out
              (set_grad 0 (Some (NDArray [1] [100])) (set_grad out (Some (NDArray [1] [1])) h1))) ! 1)
         = Some (NDArray [1] [- 1 / 8])"
  by (simp add: two_leaves_ops two_leaves_div_backward)

text \<open>
  C7, amended. Divide's backward rule assigns \<open>self.grad\<close> before it reads it: if the rule
  returns normally from a heap in which \<open>self.grad\<close> holds one value (or none), it returns
  normally and leaves the same heap, so the same \<open>other.grad\<close>, from the heap in which
  \<open>self.grad\<close> holds any other value. No earlier step need have populated \<open>self.grad\<close>.
\<close>

theorem truediv_ignores_prior_self_grad:
  assumes "a < length h" and "b < length h" and "requires_grad (h ! a)"
    and "Tensor_truediv str h a (IsTensor b) = Inr (out, h1)"
    and "call_backward out (set_grad a x (set_grad out (Some g) h1)) = (None, h2)"
  shows "call_backward out (set_grad a y (set_grad out (Some g) h1)) = (None, h2)"
proof -
  have v: "valid_operand h (IsTensor b)" using assms(2) by (simp add: valid_operand_def)
  note e = truediv_rule_effect[OF assms(1) v assms(3,4) refl, of _ g]
  show ?thesis using assms(5) unfolding e[of x] e[of y]
    by (auto simp: set_grad_overwrite split: sum.splits)
qed

theorem truediv_ignores_prior_self_grad_witness:
  "case Tensor_truediv (\<lambda>d. []) two_leaves 0 (IsTensor 1) of
     Inl e \<Rightarrow> False
   | Inr (out, h1) \<Rightarrow>
       fst (call_backward out (set_grad 0 None (set_grad out (Some (NDArray [1] [1])) h1))) = None
       \<and> call_backward out
            (set_grad 0 (Some (NDArray [1] [100])) (set_grad out (Some (NDArray [1] [1])) h1))
         = call_backward out (set_grad 0 None (set_grad out (Some (NDArray [1] [1])) h1))"
proof -
  let ?n = "\<lparr> data = NDArray [1] [3], label = [], requires_grad = True, grad = None,
        backward = DivBackward 0 (Suc 0) 2, shape = [1], components = {0, Suc 0},
        operator = ''/'' \<rparr>"
  let ?G = "NDArray [Suc 0] [1]"
  have 0: "0 < length two_leaves" and 1: "Suc 0 < length two_leaves"
    and rg: "requires_grad (two_leaves ! 0)"
    by (simp_all add: two_leaves_def leaf_def)
  have e: "Tensor_truediv (\<lambda>d. []) two_leaves 0 (IsTensor (Suc 0)) = Inr (2, two_leaves @ [?n])"
    by (rule two_leaves_ops(3))
  obtain h2 where c: "call_backward 2 (set_grad 0 None (set_grad 2 (Some ?G) (two_leaves @ [?n]))) = (None, h2)"
    using two_leaves_div_backward[of None] by simp
  from truediv_ignores_prior_self_grad[OF 0 1 rg e c, of "Some (NDArray [1] [100])"] c e
  show ?thesis by simp
qed

text \<open>
  C8. On a heap whose operands are all objects of the heap, and with a recursion limit above
  the number of objects, \<open>trace(root)\<close> returns, whatever the order in which the operand sets
  are iterated: as nodes exactly the objects reachable from \<open>root\<close> along operand references
  (a set, so each once), and as edges exactly the (operand, consumer) pairs of the reachable
  consumers. If a leaf has exactly two distinct reachable consumers \<open>x\<close> and \<open>y\<close> (a diamond),
  the leaf is among the nodes and the edges incident to it are the two edges into \<open>x\<close> and
  \<open>y\<close>.
\<close>

theorem trace_reachable:
  assumes wf: "wf_heap h" and it: "iterates iter h" and rt: "rt < length h"
    and limit: "length h < limit"
  shows "trace iter limit h rt = Some (reachable h rt, operand_edges h (reachable h rt))
    \<and> (\<forall>lf x y. components (h ! lf) = {} \<and> x \<noteq> y
           \<and> {u \<in> reachable h rt. lf \<in> components (h ! u)} = {x, y}
         \<longrightarrow> lf \<in> reachable h rt
           \<and> {e \<in> operand_edges h (reachable h rt). fst e = lf \<or> snd e = lf} = {(lf, x), (lf, y)}
           \<and> card {e \<in> operand_edges h (reachable h rt). fst e = lf \<or> snd e = lf} = 2)"
proof (rule conjI)
  have "card ({..<length h} - fst ({}::ref set, {}::(ref \<times> ref) set)) < limit"
    using limit by simp
  from build_total[OF it wf rt this] obtain g' where b: "build iter h limit rt ({}, {}) = Some g'" ..
  from build_sound[OF it wf b rt]
  have e: "explored h (reachable h rt) ({}, {}) g'" and r: "rt \<in> fst g'" by simp_all
  from e have sub: "fst g' \<subseteq> reachable h rt"
    and cl: "\<And>u. u \<in> fst g' \<Longrightarrow> components (h ! u) \<subseteq> fst g'"
    and ed: "snd g' = operand_edges h (fst g')"
    unfolding explored_def fst_conv snd_conv by simp_all
  have "reachable h rt \<subseteq> fst g'"
    using r cl by (rule reachable_closed[OF _ subsetD])
  with sub have "fst g' = reachable h rt" by (rule equalityI)
  with ed have "g' = (reachable h rt, operand_edges h (reachable h rt))"
    by (cases g') simp
  with b show "trace iter limit h rt = Some (reachable h rt, operand_edges h (reachable h rt))"
    by (simp add: trace_def)
next
  show "\<forall>lf x y. components (h ! lf) = {} \<and> x \<noteq> y
           \<and> {u \<in> reachable h rt. lf \<in> components (h ! u)} = {x, y}
         \<longrightarrow> lf \<in> reachable h rt
           \<and> {e \<in> operand_edges h (reachable h rt). fst e = lf \<or> snd e = lf} = {(lf, x), (lf, y)}
           \<and> card {e \<in> operand_edges h (reachable h rt). fst e = lf \<or> snd e = lf} = 2"
  proof (intro allI impI, elim conjE)
    fix lf x y
    assume leaf: "components (h ! lf) = {}" and ne: "x \<noteq> y"
      and cons: "{u \<in> reachable h rt. lf \<in> components (h ! u)} = {x, y}"
    from cons have "x \<in> {u \<in> reachable h rt. lf \<in> components (h ! u)}" by simp
    then have x: "x \<in> reachable h rt" "lf \<in> components (h ! x)" by simp_all
    from reachable_step[OF x(2)] reachable_self[of lf h] have "lf \<in> reachable h x" by blast
    moreover have "reachable h x \<subseteq> reachable h rt"
      using x(1) unfolding reachable_def by (auto intro: rtrancl_trans)
    ultimately have 1: "lf \<in> reachable h rt" by blast
    have "{e \<in> operand_edges h (reachable h rt). fst e = lf \<or> snd e = lf}
          = (\<lambda>u. (lf, u)) ` {u \<in> reachable h rt. lf \<in> components (h ! u)}"
      using leaf unfolding operand_edges_def by auto
    then have 2: "{e \<in> operand_edges h (reachable h rt). fst e = lf \<or> snd e = lf} = {(lf, x), (lf, y)}"
      unfolding cons by simp
    have 3: "card {e \<in> operand_edges h (reachable h rt). fst e = lf \<or> snd e = lf} = 2"
      unfolding 2 using ne by simp
    show "lf \<in> reachable h rt
           \<and> {e \<in> operand_edges h (reachable h rt). fst e = lf \<or> snd e = lf} = {(lf, x), (lf, y)}
           \<and> card {e \<in> operand_edges h (reachable h rt). fst e = lf \<or> snd e = lf} = 2"
      using 1 2 3 by (intro conjI)
  qed
qed

theorem trace_reachable_witness:
  "trace (\<lambda>S. filter (\<lambda>v. v \<in> S) [0..<4]) 5 diamond 3
     = Some ({0, 1, 2, 3}, {(1, 3), (2, 3), (0, 1), (0, 2)})
   \<and> reachable diamond 3 = {0, 1, 2, 3}
   \<and> operand_edges diamond (reachable diamond 3) = {(1, 3), (2, 3), (0, 1), (0, 2)}
   \<and> {e \<in> operand_edges diamond (reachable diamond 3). fst e = 0 \<or> snd e = 0} = {(0, 1), (0, 2)}"
proof -
  let ?iter = "\<lambda>S. filter (\<lambda>v. v \<in> S) [0..<4::nat]"
  have len: "length diamond = 4" by (simp add: diamond_def)
  have c0: "components (diamond ! 0) = {}" and c1: "components (diamond ! 1) = {0}"
    and c2: "components (diamond ! 2) = {0}" and c3: "components (diamond ! 3) = {1, 2}"
    by (simp_all add: diamond_def leaf_def)
  have lt4: "\<And>v::nat. v < 4 \<longleftrightarrow> v = 0 \<or> v = 1 \<or> v = 2 \<or> v = 3" by auto
  have wf: "wf_heap diamond"
    unfolding wf_heap_def len lt4 using c0 c1 c2 c3 by auto
  have it: "iterates ?iter diamond"
    unfolding iterates_def len lt4 using c0 c1 c2 c3 by auto
  have t: "trace ?iter 5 diamond 3 = Some ({0, 1, 2, 3}, {(1, 3), (2, 3), (0, 1), (0, 2)})"
    by code_simp
  from trace_reachable[OF wf it, of 3 5] len
  have s: "trace ?iter 5 diamond 3 = Some (reachable diamond 3, operand_edges diamond (reachable diamond 3))"
    and d: "\<And>lf x y. components (diamond ! lf) = {} \<Longrightarrow> x \<noteq> y \<Longrightarrow>
              {u \<in> reachable diamond 3. lf \<in> components (diamond ! u)} = {x, y} \<Longrightarrow>
              {e \<in> operand_edges diamond (reachable diamond 3). fst e = lf \<or> snd e = lf} = {(lf, x), (lf, y)}"
    by simp_all
  from s t have r: "reachable diamond 3 = {0, 1, 2, 3}"
    and e: "operand_edges diamond (reachable diamond 3) = {(1, 3), (2, 3), (0, 1), (0, 2)}"
    by simp_all
  have "{u \<in> reachable diamond 3. 0 \<in> components (diamond ! u)} = {1, 2}"
    unfolding r using c0 c1 c2 c3 by auto
  from d[OF c0 _ this] have "{e \<in> operand_edges diamond (reachable diamond 3). fst e = 0 \<or> snd e = 0} = {(0, 1), (0, 2)}"
    by simp
  with t r e show ?thesis by (intro conjI)
qed

text \<open>
  C9. \<open>zeros(shape)\<close> returns a leaf of that shape whose elements are all 0 and
  \<open>randn(shape)\<close> a leaf of that shape (in particular for the shape \<open>(2,3)\<close>), both with
  \<open>requires_grad\<close> true when the argument is omitted; a tensor built by the bare
  constructor with the argument omitted has \<open>requires_grad\<close> false.
\<close>

theorem factories:
  "(\<exists>r h1. zeros h shp lbl None = Inr (r, h1)
       \<and> shape (h1 ! r) = shp
       \<and> data (h1 ! r) = NDArray shp (replicate (prod_list shp) 0)
       \<and> components (h1 ! r) = {} \<and> operator (h1 ! r) = [] \<and> backward (h1 ! r) = NoOp
       \<and> requires_grad (h1 ! r))
 \<and> (\<exists>r h1. randn draws h shp lbl None = Inr (r, h1)
       \<and> shape (h1 ! r) = shp
       \<and> shape_of (data (h1 ! r)) = shp \<and> length (elems (data (h1 ! r))) = prod_list shp
       \<and> components (h1 ! r) = {} \<and> operator (h1 ! r) = [] \<and> backward (h1 ! r) = NoOp
       \<and> requires_grad (h1 ! r))
 \<and> (\<forall>d r h1. Tensor h d lbl None None None = Inr (r, h1) \<longrightarrow> \<not> requires_grad (h1 ! r))"
  by (auto simp: zeros_def randn_def Tensor_def dflt_def np_zeros_def np_random_randn_def
      split: sum.splits)

theorem factories_witness:
  "(case zeros [] [2, 3] None None of
      Inl e \<Rightarrow> False
    | Inr (r, h1) \<Rightarrow> shape (h1 ! r) = [2, 3] \<and> elems (data (h1 ! r)) = [0, 0, 0, 0, 0, 0]
        \<and> requires_grad (h1 ! r))
 \<and> (case randn (\<lambda>i. real i) [] [2, 3] None None of
      Inl e \<Rightarrow> False
    | Inr (r, h1) \<Rightarrow> shape (h1 ! r) = [2, 3] \<and> length (elems (data (h1 ! r))) = 6
        \<and> requires_grad (h1 ! r))
 \<and> (case Tensor [] (PySeq [PyFloat 0]) None None None None of
      Inl e \<Rightarrow> False
    | Inr (r, h1) \<Rightarrow> \<not> requires_grad (h1 ! r))"
proof -
  obtain r h1 where t: "Tensor [] (PySeq [PyFloat 0]) None None None None = Inr (r, h1)"
    by (simp add: Tensor_def)
  from factories[of "[]" "[2, 3]" None "\<lambda>i. real i"] t
  show ?thesis by (auto simp: eval_nat_numeral)
qed

text \<open>
  C10. With \<open>self.requires_grad\<close> true, whatever \<open>other.requires_grad\<close> is: after
  \<open>out = self - other\<close> or \<open>out = self * other\<close>, calling \<open>out\<close>'s rule with
  \<open>out.grad = g\<close> returns normally and leaves \<open>other.grad = -g\<close>. After \<open>self / other\<close>
  and after \<open>self @ other\<close>, the call returns normally whenever numpy computes the
  products of the rule's formulas, and then leaves the value of the formula in
  \<open>other.grad\<close>; it does so when \<open>g\<close> has the shape of \<open>other.data\<close> (divide), and when
  \<open>self.data\<close>, \<open>other.data\<close> and \<open>g\<close> have shapes \<open>(n,m)\<close>, \<open>(m,k)\<close> and \<open>(n,k)\<close>
  (matrix multiply); and a call that returns normally has written that value. A right
  operand that was coerced from a value that is not a tensor has \<open>requires_grad\<close> false,
  and is written all the same.
\<close>

theorem other_grad_written:
  assumes a: "self < length h" and v: "valid_operand h other" and rg: "requires_grad (h ! self)"
  shows "(\<forall>out h1. Tensor_sub str h self other = Inr (out, h1) \<longrightarrow>
            (\<exists>h2. call_backward out (set_grad out (Some g) h1) = (None, h2)
                 \<and> grad (h2 ! operand_ref h other) = Some (np_neg g)))
       \<and> (\<forall>out h1. Tensor_mul str h self other = Inr (out, h1) \<longrightarrow>
            (\<exists>h2. call_backward out (set_grad out (Some g) h1) = (None, h2)
                 \<and> grad (h2 ! operand_ref h other) = Some (np_neg g)))
       \<and> (\<forall>out h1. Tensor_truediv str h self other = Inr (out, h1) \<longrightarrow>
             (\<forall>ga p gb. np_mul (np_pow (data (h1 ! operand_ref h other)) (- 1)) g = Inr ga
                  \<and> np_mul (np_neg ga) (np_pow (data (h1 ! operand_ref h other)) (- 2)) = Inr p
                  \<and> np_mul p g = Inr gb \<longrightarrow>
                (\<exists>h2. call_backward out (set_grad out (Some g) h1) = (None, h2)
                     \<and> grad (h2 ! operand_ref h other) = Some gb))
           \<and> (shape_of g = shape_of (data (h1 ! operand_ref h other)) \<longrightarrow>
                (\<exists>h2 gb. call_backward out (set_grad out (Some g) h1) = (None, h2)
                     \<and> grad (h2 ! operand_ref h other) = Some gb
                     \<and> shape_of gb = shape_of (data (h1 ! operand_ref h other))))
           \<and> (\<forall>h2. call_backward out (set_grad out (Some g) h1) = (None, h2) \<longrightarrow>
                (\<exists>ga p gb. np_mul (np_pow (data (h1 ! operand_ref h other)) (- 1)) g = Inr ga
                     \<and> np_mul (np_neg ga) (np_pow (data (h1 ! operand_ref h other)) (- 2)) = Inr p
                     \<and> np_mul p g = Inr gb
                     \<and> grad (h2 ! operand_ref h other) = Some gb)))
       \<and> (\<forall>out h1. Tensor_matmul str h self other = Inr (out, h1) \<longrightarrow>
             (\<forall>ga gb. np_matmul g (np_T (data (h1 ! operand_ref h other))) = Inr ga
                  \<and> np_matmul (np_T (data (h ! self))) g = Inr gb \<longrightarrow>
                (\<exists>h2. call_backward out (set_grad out (Some g) h1) = (None, h2)
                     \<and> grad (h2 ! operand_ref h other) = Some gb))
           \<and> (\<forall>n m k. shape_of (data (h ! self)) = [n, m]
                  \<and> shape_of (data (h1 ! operand_ref h other)) = [m, k] \<and> shape_of g = [n, k] \<longrightarrow>
                (\<exists>h2 gb. call_backward out (set_grad out (Some g) h1) = (None, h2)
                     \<and> grad (h2 ! operand_ref h other) = Some gb \<and> shape_of gb = [m, k]))
           \<and> (\<forall>h2. call_backward out (set_grad out (Some g) h1) = (None, h2) \<longrightarrow>
                (\<exists>gb. np_matmul (np_T (data (h ! self))) g = Inr gb
                     \<and> grad (h2 ! operand_ref h other) = Some gb)))
       \<and> (\<forall>d out h1. other = NotTensor d
              \<and> (Tensor_sub str h self other = Inr (out, h1)
                \<or> Tensor_mul str h self other = Inr (out, h1)
                \<or> Tensor_truediv str h self other = Inr (out, h1)
                \<or> Tensor_matmul str h self other = Inr (out, h1)) \<longrightarrow>
            \<not> requires_grad (h1 ! operand_ref h other))"
  using sub_writes_other[OF a v rg] mul_writes_other[OF a v rg] truediv_other_all[OF a v rg]
    matmul_other_all[OF a v rg] coerced_flag[OF a v]
  by (intro conjI)

theorem other_grad_written_witness:
  "\<not> requires_grad (two_leaves ! 1) \<and> \<not> requires_grad (two_matrices ! 1)
   \<and> (case Tensor_sub (\<lambda>d. []) two_leaves 0 (IsTensor 1) of
        Inl e \<Rightarrow> False
      | Inr (out, h1) \<Rightarrow>
          (case call_backward out (set_grad out (Some (NDArray [1] [1])) h1) of
             (err, h2) \<Rightarrow> err = None \<and> grad (h2 ! 1) = Some (NDArray [1] [- 1])))
   \<and> (case Tensor_mul (\<lambda>d. []) two_leaves 0 (NotTensor (PyFloat 5)) of
        Inl e \<Rightarrow> False
      | Inr (out, h1) \<Rightarrow>
          \<not> requires_grad (h1 ! 2)
          \<and> (case call_backward out (set_grad out (Some (NDArray [1] [1])) h1) of
               (err, h2) \<Rightarrow> err = None \<and> grad (h2 ! 2) = Some (NDArray [1] [- 1])))
   \<and> (case Tensor_truediv (\<lambda>d. []) two_leaves 0 (IsTensor 1) of
        Inl e \<Rightarrow> False
      | Inr (out, h1) \<Rightarrow>
          (case call_backward out (set_grad out (Some (NDArray [1] [1])) h1) of
             (err, h2) \<Rightarrow> err = None \<and> grad (h2 ! 1) = Some (NDArray [1] [- 1 / 8])))
   \<and> (case Tensor_matmul (\<lambda>d. []) two_matrices 0 (IsTensor 1) of
        Inl e \<Rightarrow> False
      | Inr (out, h1) \<Rightarrow>
          (case call_backward out (set_grad out (Some (NDArray [1, 1] [1])) h1) of
             (err, h2) \<Rightarrow> err = None \<and> grad (h2 ! 1) = Some (NDArray [2, 1] [1, 2])))"
proof -
  let ?G = "NDArray [1] [1]"
  let ?M = "NDArray [Suc 0, Suc 0] [1]"
  let ?dn = "\<lparr> data = NDArray [1] [3], label = [], requires_grad = True, grad = None,
        backward = DivBackward 0 (Suc 0) 2, shape = [1], components = {0, Suc 0},
        operator = ''/'' \<rparr>"
  let ?mn = "\<lparr> data = NDArray [Suc 0, Suc 0] [11], label = [],
        requires_grad = True, grad = None, backward = MatmulBackward 0 (Suc 0) 2,
        shape = [Suc 0, Suc 0], components = {0, Suc 0}, operator = ''@'' \<rparr>"
  have 0: "0 < length two_leaves" and rg: "requires_grad (two_leaves ! 0)"
    and nrg: "\<not> requires_grad (two_leaves ! 1)"
    by (simp_all add: two_leaves_def leaf_def)
  have m0: "0 < length two_matrices" and mrg: "requires_grad (two_matrices ! 0)"
    and mnrg: "\<not> requires_grad (two_matrices ! 1)"
    by (simp_all add: two_matrices_def leaf_def)
  have v1: "valid_operand two_leaves (IsTensor (Suc 0))"
    and v2: "valid_operand two_leaves (NotTensor (PyFloat 5))"
    and v3: "valid_operand two_matrices (IsTensor (Suc 0))"
    by (simp_all add: valid_operand_def two_leaves_def two_matrices_def)
  obtain out h1 where s: "Tensor_sub (\<lambda>d. []) two_leaves 0 (IsTensor (Suc 0)) = Inr (out, h1)"
    by (simp add: two_leaves_ops)
  obtain out' h1' where m: "Tensor_mul (\<lambda>d. []) two_leaves 0 (NotTensor (PyFloat 5)) = Inr (out', h1')"
    by (simp add: op_defs two_leaves_def leaf_def np_defs)
  have d: "Tensor_truediv (\<lambda>d. []) two_leaves 0 (IsTensor (Suc 0)) = Inr (2, two_leaves @ [?dn])"
    by (rule two_leaves_ops(3))
  have mm: "Tensor_matmul (\<lambda>d. []) two_matrices 0 (IsTensor (Suc 0)) = Inr (2, two_matrices @ [?mn])"
    by (rule two_matrices_matmul)
  note sub_mul = other_grad_written[OF 0 v1 rg, of "\<lambda>d. []" ?G]
  from sub_mul s
  obtain h2 where 1: "call_backward out (set_grad out (Some ?G) h1) = (None, h2)"
    and 2: "grad (h2 ! Suc 0) = Some (np_neg ?G)"
    by (auto simp: operand_ref_def)
  from other_grad_written[OF 0 v2 rg, of "\<lambda>d. []" ?G] m
  obtain h2' where 3: "call_backward out' (set_grad out' (Some ?G) h1') = (None, h2')"
    and 4: "grad (h2' ! 2) = Some (np_neg ?G)"
    and 5: "\<not> requires_grad (h1' ! 2)"
    by (auto simp: operand_ref_def length_two_leaves)
  have sd: "shape_of ?G = shape_of (data ((two_leaves @ [?dn]) ! operand_ref two_leaves (IsTensor (Suc 0))))"
    by (simp add: operand_ref_def two_leaves_def leaf_def)
  from sub_mul d sd
  obtain h3 gb where 6: "call_backward 2 (set_grad 2 (Some ?G) (two_leaves @ [?dn])) = (None, h3)"
    and 7: "grad (h3 ! Suc 0) = Some gb"
    by (auto simp: operand_ref_def)
  have ev: "set_grad 2 (Some ?G) (two_leaves @ [?dn]) = set_grad 0 None (set_grad 2 (Some ?G) (two_leaves @ [?dn]))"
    by (simp add: set_grad_def two_leaves_def leaf_def)
  have c6: "call_backward 2 (set_grad 0 None (set_grad 2 (Some ?G) (two_leaves @ [?dn]))) = (None, h3)"
    using 6 by (simp only: ev[symmetric])
  from c6 7 two_leaves_div_backward[of None]
  have 8: "gb = NDArray [Suc 0] [- 1 / 8]" by auto
  have sm: "shape_of (data (two_matrices ! 0)) = [Suc 0, 2]"
    "shape_of (data ((two_matrices @ [?mn]) ! operand_ref two_matrices (IsTensor (Suc 0)))) = [2, Suc 0]"
    "shape_of ?M = [Suc 0, Suc 0]"
    by (simp_all add: operand_ref_def two_matrices_def leaf_def)
  from other_grad_written[OF m0 v3 mrg, of "\<lambda>d. []" ?M] mm sm
  obtain h4 gm where 9: "call_backward 2 (set_grad 2 (Some ?M) (two_matrices @ [?mn])) = (None, h4)"
    and 10: "grad (h4 ! Suc 0) = Some gm"
    by (auto simp: operand_ref_def)
  from 9 10 two_matrices_matmul_backward
  have 11: "gm = NDArray [Suc (Suc 0), Suc 0] [1, 2]" by auto
  show ?thesis using nrg mnrg s m 1 2 3 4 5 d 6 7 8 mm 9 10 11
    by (simp add: np_neg_def eval_nat_numeral)
qed

end
